theory Spec2Isabelle
  imports Complex_Main "HOL-Library.Word" "HOL-Library.Sublist"
begin

section \<open>Go library functions used by the backend\<close>

text \<open>
  Go strings are byte sequences; \<open>string\<close> (a list of 8-bit characters) is the same data.
  Text outside ASCII is held as its UTF-8 bytes, as the Go compiler stores it.
\<close>

subsection \<open>Decimal printing: \<open>strconv.Itoa\<close>, \<open>fmt.Sprintf("%d")\<close>\<close>

definition digit_char :: "nat \<Rightarrow> char" where
  "digit_char d = ''0123456789'' ! d"

function show_nat :: "nat \<Rightarrow> string" where
  "show_nat n = (if n < 10 then [digit_char n] else show_nat (n div 10) @ [digit_char (n mod 10)])"
  by pat_completeness auto
termination
  by (relation "measure id") auto

declare show_nat.simps [simp del]

definition Itoa :: "int \<Rightarrow> string" where
  "Itoa i = (if i < 0 then CHR ''-'' # show_nat (nat (- i)) else show_nat (nat i))"

subsection \<open>\<open>fmt.Sprintf("%.0f")\<close> on a finite float64\<close>

text \<open>
  Every finite float64 is a rational number, so the bitrate field is held as a \<open>rat\<close>.
  JSON decoding never yields NaN or an infinity. With precision 0 Go prints the sign and
  then the magnitude rounded to the nearest integer, an exact half going to the even
  neighbour (package strconv, \<open>decimal.Round\<close>).
\<close>

definition round_half_even :: "rat \<Rightarrow> nat" where
  "round_half_even x =
     (let f = \<lfloor>x\<rfloor>; r = x - of_int f
      in nat (if r < 1 / 2 then f else if 1 / 2 < r then f + 1 else if even f then f else f + 1))"

definition Sprintf_f0 :: "rat \<Rightarrow> string" where
  "Sprintf_f0 x =
     (if x < 0 then CHR ''-'' # show_nat (round_half_even (- x)) else show_nat (round_half_even x))"

subsection \<open>Package strings\<close>

definition HasPrefix :: "string \<Rightarrow> string \<Rightarrow> bool" where
  "HasPrefix s p = (take (length p) s = p)"

definition HasSuffix :: "string \<Rightarrow> string \<Rightarrow> bool" where
  "HasSuffix s suf = (length suf \<le> length s \<and> drop (length s - length suf) s = suf)"

definition TrimSuffix :: "string \<Rightarrow> string \<Rightarrow> string" where
  "TrimSuffix s suf = (if HasSuffix s suf then take (length s - length suf) s else s)"

definition Contains :: "string \<Rightarrow> string \<Rightarrow> bool" where
  "Contains s sub = list_ex (\<lambda>t. HasPrefix t sub) (suffixes s)"

subsection \<open>\<open>strconv.Atoi\<close>\<close>

text \<open>
  Base 10, an optional sign, at least one digit, nothing else; a value outside the 64-bit
  range of Go's \<open>int\<close> is a range error. \<open>None\<close> stands for a non-nil error.
\<close>

definition is_digit :: "char \<Rightarrow> bool" where
  "is_digit c = (c \<in> set ''0123456789'')"

definition digit_val :: "char \<Rightarrow> nat" where
  "digit_val c = of_char c - 48"

fun digits_val :: "nat \<Rightarrow> string \<Rightarrow> nat" where
  "digits_val n [] = n"
| "digits_val n (c # cs) = digits_val (n * 10 + digit_val c) cs"

definition Atoi :: "string \<Rightarrow> int option" where
  "Atoi s =
     (let neg = (s \<noteq> [] \<and> hd s = CHR ''-'');
          signed = (s \<noteq> [] \<and> (hd s = CHR ''-'' \<or> hd s = CHR ''+''));
          body = (if signed then tl s else s)
      in if body = [] \<or> \<not> list_all is_digit body then None
         else let v = int (digits_val 0 body); n = (if neg then - v else v)
              in if n < - (2 ^ 63) \<or> 2 ^ 63 - 1 < n then None else Some n)"

section \<open>The format model (services, yt-dlp wrapper)\<close>

text \<open>
  \<open>ytdlpFormat\<close> is one entry of the extractor's JSON; its fields carry the prefix
  \<open>yt_\<close> because \<open>Format\<close> has a field \<open>Ext\<close> too. \<open>Filesize\<close> and \<open>Size\<close> are int64.
  \<open>Height\<close> is a Go \<open>int\<close>: it is only compared with 0 and printed.
\<close>

record ytdlpFormat =
  yt_FormatID :: string
  yt_Ext :: string
  yt_Resolution :: string
  yt_VCodec :: string
  yt_ACodec :: string
  yt_Filesize :: "64 word"
  yt_ABR :: rat
  yt_Height :: int
  yt_FormatNote :: string

record Format =
  ID :: string
  Type :: string
  Quality :: string
  Ext :: string
  Size :: "64 word"

subsection \<open>\<open>parseFormats\<close>\<close>

text \<open>
  The body of the loop up to the deduplication key. Each \<open>continue\<close> of the source is a
  value of \<open>skip\<close>, so that the branch taken stays visible.
\<close>

datatype skip = NoFormatID | NotMp4 | NoQuality | NoTrack

definition classify :: "ytdlpFormat \<Rightarrow> skip + string \<times> string" where
  "classify f =
     (if yt_FormatID f = [] then Inl NoFormatID
      else if yt_VCodec f = ''none'' \<and> yt_ACodec f \<noteq> ''none'' then
        Inr (''audio'', if 0 < yt_ABR f then Sprintf_f0 (yt_ABR f) @ ''kbps'' else ''audio'')
      else if yt_VCodec f \<noteq> ''none'' then
        (if yt_Ext f \<noteq> ''mp4'' then Inl NotMp4
         else if 0 < yt_Height f then Inr (''video'', Itoa (yt_Height f) @ ''p'')
         else if yt_Resolution f \<noteq> [] \<and> yt_Resolution f \<noteq> ''audio only''
           then Inr (''video'', yt_Resolution f)
         else Inl NoQuality)
      else Inl NoTrack)"

definition dedup_key :: "string \<Rightarrow> string \<Rightarrow> string \<Rightarrow> string" where
  "dedup_key formatType quality ext = formatType @ ''-'' @ quality @ ''-'' @ ext"

definition mk_Format :: "ytdlpFormat \<Rightarrow> string \<Rightarrow> string \<Rightarrow> Format" where
  "mk_Format f formatType quality =
     \<lparr>ID = yt_FormatID f, Type = formatType, Quality = quality, Ext = yt_Ext f,
      Size = yt_Filesize f\<rparr>"

text \<open>The loop: \<open>seen\<close> is the \<open>map[string]bool\<close>, a missing key reading as false.\<close>

fun parseFormats_loop :: "ytdlpFormat list \<Rightarrow> (string \<Rightarrow> bool) \<Rightarrow> Format list \<Rightarrow> Format list" where
  "parseFormats_loop [] seen formats = formats"
| "parseFormats_loop (f # fs) seen formats =
     (case classify f of
        Inl _ \<Rightarrow> parseFormats_loop fs seen formats
      | Inr (formatType, quality) \<Rightarrow>
          (let key = dedup_key formatType quality (yt_Ext f)
           in if seen key then parseFormats_loop fs seen formats
              else parseFormats_loop fs (seen(key := True))
                     (formats @ [mk_Format f formatType quality])))"

definition parseFormats :: "ytdlpFormat list \<Rightarrow> Format list" where
  "parseFormats ytFormats = parseFormats_loop ytFormats (\<lambda>_. False) []"

subsection \<open>\<open>extractBitrate\<close> and \<open>GetBestFormats\<close>\<close>

definition extractBitrate :: "string \<Rightarrow> int" where
  "extractBitrate quality = (case Atoi (TrimSuffix quality ''kbps'') of Some bitrate \<Rightarrow> bitrate | None \<Rightarrow> 0)"

text \<open>The first loop: \<open>bestAudio\<close> is a pointer that is nil until an audio entry is met.\<close>

fun bestAudio_loop :: "Format list \<Rightarrow> Format option \<Rightarrow> Format option" where
  "bestAudio_loop [] bestAudio = bestAudio"
| "bestAudio_loop (f # fs) bestAudio =
     (if Type f = ''audio'' then
        (case bestAudio of
           None \<Rightarrow> bestAudio_loop fs (Some f)
         | Some b \<Rightarrow>
             if extractBitrate (Quality b) < extractBitrate (Quality f)
             then bestAudio_loop fs (Some f) else bestAudio_loop fs bestAudio)
      else bestAudio_loop fs bestAudio)"

text \<open>The three label fragments of the source are Russian text, held as UTF-8 bytes.\<close>

definition best_audio_label :: string where
  "best_audio_label =
     [CHR 0xD0, CHR 0x9B, CHR 0xD1, CHR 0x83, CHR 0xD1, CHR 0x87, CHR 0xD1, CHR 0x88, CHR 0xD0,
      CHR 0xB5, CHR 0xD0, CHR 0xB5, CHR '' '', CHR 0xD0, CHR 0xB0, CHR 0xD1, CHR 0x83, CHR 0xD0,
      CHR 0xB4, CHR 0xD0, CHR 0xB8, CHR 0xD0, CHR 0xBE, CHR '' '', CHR ''('']"

definition video_audio_suffix :: string where
  "video_audio_suffix =
     [CHR '' '', CHR ''('', CHR 0xD0, CHR 0xB2, CHR 0xD0, CHR 0xB8, CHR 0xD0, CHR 0xB4, CHR 0xD0,
      CHR 0xB5, CHR 0xD0, CHR 0xBE, CHR '' '', CHR ''+'', CHR '' '', CHR 0xD0, CHR 0xB0, CHR 0xD1,
      CHR 0x83, CHR 0xD0, CHR 0xB4, CHR 0xD0, CHR 0xB8, CHR 0xD0, CHR 0xBE, CHR '')'']"

definition video_only_suffix :: string where
  "video_only_suffix =
     [CHR '' '', CHR ''('', CHR 0xD1, CHR 0x82, CHR 0xD0, CHR 0xBE, CHR 0xD0, CHR 0xBB, CHR 0xD1,
      CHR 0x8C, CHR 0xD0, CHR 0xBA, CHR 0xD0, CHR 0xBE, CHR '' '', CHR 0xD0, CHR 0xB2, CHR 0xD0,
      CHR 0xB8, CHR 0xD0, CHR 0xB4, CHR 0xD0, CHR 0xB5, CHR 0xD0, CHR 0xBE, CHR '')'']"

definition resolutions :: "int list" where
  "resolutions = [360, 480, 720, 1080]"

text \<open>\<open>resLabels\<close> is a \<open>map[int]string\<close>; a missing key reads as the empty string.\<close>

definition resLabels :: "int \<Rightarrow> string" where
  "resLabels res =
     (if res = 360 then ''360p'' else if res = 480 then ''480p''
      else if res = 720 then ''720p HD'' else if res = 1080 then ''1080p Full HD'' else [])"

definition best_audio_offer :: "Format \<Rightarrow> Format" where
  "best_audio_offer a =
     \<lparr>ID = ID a, Type = ''audio'', Quality = best_audio_label @ Quality a @ '')'',
      Ext = Ext a, Size = Size a\<rparr>"

definition merged_offer :: "int \<Rightarrow> Format \<Rightarrow> Format \<Rightarrow> Format" where
  "merged_offer res f a =
     \<lparr>ID = ID f @ ''+'' @ ID a, Type = ''video'', Quality = resLabels res @ video_audio_suffix,
      Ext = ''mp4'', Size = Size f + Size a\<rparr>"

definition video_only_offer :: "int \<Rightarrow> Format \<Rightarrow> Format" where
  "video_only_offer res f =
     \<lparr>ID = ID f, Type = ''video_only'', Quality = resLabels res @ video_only_suffix,
      Ext = Ext f, Size = Size f\<rparr>"

text \<open>The inner loop for one tier: the first match appends its offers and breaks.\<close>

fun tier_scan :: "int \<Rightarrow> Format option \<Rightarrow> Format list \<Rightarrow> Format list \<Rightarrow> Format list" where
  "tier_scan res bestAudio [] best = best"
| "tier_scan res bestAudio (f # fs) best =
     (if Type f = ''video'' \<and> HasPrefix (Quality f) (Itoa res) then
        (case bestAudio of
           None \<Rightarrow> best @ [video_only_offer res f]
         | Some a \<Rightarrow> best @ [merged_offer res f a] @ [video_only_offer res f])
      else tier_scan res bestAudio fs best)"

fun tiers_loop :: "int list \<Rightarrow> Format option \<Rightarrow> Format list \<Rightarrow> Format list \<Rightarrow> Format list" where
  "tiers_loop [] bestAudio formats best = best"
| "tiers_loop (res # rs) bestAudio formats best =
     tiers_loop rs bestAudio formats (tier_scan res bestAudio formats best)"

definition GetBestFormats :: "Format list \<Rightarrow> Format list" where
  "GetBestFormats formats =
     (let bestAudio = bestAudio_loop formats None;
          best = (case bestAudio of None \<Rightarrow> [] | Some a \<Rightarrow> [best_audio_offer a])
      in tiers_loop resolutions bestAudio formats best)"

section \<open>Package path/filepath and the filename helpers\<close>

text \<open>
  \<open>filepath.Join\<close> joins its elements with a slash and cleans the result. The handler's
  directory is the constant "/tmp/viddown" and the joined name holds no slash and is
  neither "." nor "..", so cleaning changes nothing and the join is the concatenation.
\<close>

definition filepath_Join :: "string \<Rightarrow> string \<Rightarrow> string" where
  "filepath_Join dir name = dir @ ''/'' @ name"

text \<open>\<open>filepath.Base\<close>: trailing slashes are dropped, then the last element is taken.\<close>

definition filepath_Base :: "string \<Rightarrow> string" where
  "filepath_Base path =
     (if path = [] then ''.''
      else let stripped = rev (dropWhile (\<lambda>c. c = CHR ''/'') (rev path));
               elem = rev (takeWhile (\<lambda>c. c \<noteq> CHR ''/'') (rev stripped))
           in if elem = [] then ''/'' else elem)"

text \<open>\<open>filepath.Ext\<close>: the suffix from the last dot of the last element, or empty.\<close>

definition filepath_Ext :: "string \<Rightarrow> string" where
  "filepath_Ext path =
     (let elem = rev (takeWhile (\<lambda>c. c \<noteq> CHR ''/'') (rev path))
      in if CHR ''.'' \<in> set elem
         then CHR ''.'' # rev (takeWhile (\<lambda>c. c \<noteq> CHR ''.'') (rev elem)) else [])"

text \<open>
  \<open>sanitizeFilename\<close>: every old and new string of the replacer is one byte, so it maps
  bytes. The double quote is 0x22, the apostrophe 0x27, the backslash 0x5C.
\<close>

definition sanitize_char :: "char \<Rightarrow> char" where
  "sanitize_char c =
     (if c = CHR 0x22 then CHR 0x27
      else if c = CHR 0x5C \<or> c = CHR ''/'' \<or> c = CHR ''*'' \<or> c = CHR ''?'' \<or> c = CHR ''<''
              \<or> c = CHR ''>'' \<or> c = CHR ''|'' then CHR ''_''
      else if c = CHR '':'' then CHR ''-''
      else c)"

definition sanitizeFilename :: "string \<Rightarrow> string" where
  "sanitizeFilename filename = map sanitize_char filename"

section \<open>The semaphore\<close>

text \<open>
  Modelled from the spec: the type \<open>services.Semaphore\<close> with \<open>NewSemaphore\<close>,
  \<open>TryAcquire\<close>, \<open>Release\<close> and \<open>Available\<close> is used by the handler and by \<open>main\<close> but its
  file is not among the sources. The specification (4.3) describes a counting permit pool
  of fixed capacity N whose state is the number of held permits, between 0 and N:
  \<open>try_acquire\<close> hands out a permit at once if capacity remains and otherwise reports that
  none is available, without waiting; \<open>release\<close> returns a held permit to the pool;
  \<open>available\<close> is the count of free permits.
\<close>

record Semaphore =
  capacity :: nat
  held :: nat

definition TryAcquire :: "Semaphore \<Rightarrow> bool \<times> Semaphore" where
  "TryAcquire s = (if held s < capacity s then (True, s\<lparr>held := held s + 1\<rparr>) else (False, s))"

definition Release :: "Semaphore \<Rightarrow> Semaphore" where
  "Release s = s\<lparr>held := held s - 1\<rparr>"

definition Available :: "Semaphore \<Rightarrow> nat" where
  "Available s = capacity s - held s"

section \<open>The world outside the program\<close>

text \<open>
  What the operating system, the extractor process and the Go library answer is given by
  a record of answers; the program's own steps are recorded as a trace of events.
  \<open>None\<close> and \<open>False\<close> stand for a non-nil error. \<open>ValidateURL\<close> (package services) rests on
  \<open>url.Parse\<close> and regular expressions and is taken by its result.
\<close>

datatype url_error = ErrInvalidURL | ErrUnsupportedURL

text \<open>
  \<open>cmd.Output()\<close>: the standard output of a run that exits with status 0, an
  \<open>*exec.ExitError\<close>, or another error with its text. \<open>cmd.Stderr\<close> is set before the call,
  so the \<open>Stderr\<close> field of the exit error stays empty.
\<close>

datatype cmd_result = Output string | ExitError | StartError string

record world =
  QueryUnescape :: "string \<Rightarrow> string option"
  MkdirAll :: "string \<Rightarrow> bool"
  ValidateURL :: "string \<Rightarrow> url_error option"
  UnixNano :: int
  cmd_Output :: "string list \<Rightarrow> cmd_result"
  Glob :: "string \<Rightarrow> string list option"
  os_Stat :: "string \<Rightarrow> int option"
  os_Open :: "string \<Rightarrow> bool"
  file_Stat :: "string \<Rightarrow> int option"
  io_Copy :: "string \<Rightarrow> int \<times> bool"
  TypeByExtension :: "string \<Rightarrow> string"
  PathEscape :: "string \<Rightarrow> string"

datatype event =
    EvTryAcquire bool
  | EvAvailable
  | EvRelease
  | EvMkdirAll string
  | EvExec string "string list"
  | EvGlob string
  | EvStat string
  | EvRemove string
  | EvOpen string
  | EvFileStat string
  | EvClose string
  | EvHttpError nat string
  | EvHeader string string
  | EvCopy string
  | EvLog string

section \<open>\<open>DownloadToFile\<close>\<close>

datatype dl_error = UrlError url_error | DownloadFailed string | FileNotFound | StatFailed | FileEmpty

definition ytdlp_args :: "string \<Rightarrow> string \<Rightarrow> string \<Rightarrow> string list" where
  "ytdlp_args formatID outputTemplate url =
     [''-f'', formatID, ''-o'', outputTemplate, ''--no-warnings'', ''--no-playlist'', ''--no-mtime'']
     @ (if Contains formatID ''+''
        then [''--merge-output-format'', ''mp4'', ''--postprocessor-args'',
              ''ffmpeg:-c:v copy -c:a aac -strict experimental'']
        else [])
     @ [url]"

text \<open>
  The display name: \<open>strings.SplitN(baseName, "_", 2)\<close> cuts at the first underscore, and
  the second part is taken when there is one.
\<close>

definition display_name :: "string \<Rightarrow> string" where
  "display_name filePath =
     (let baseName = filepath_Base filePath
      in if CHR ''_'' \<in> set baseName then tl (dropWhile (\<lambda>c. c \<noteq> CHR ''_'') baseName)
         else baseName)"

text \<open>
  The function as the sources have it, with four parameters after the context; the handler
  passes a fifth, the audio-only flag, which this version does not take. The result is the
  events of the call and either the error or the pair (file path, file name).
\<close>

definition DownloadToFile ::
  "world \<Rightarrow> string \<Rightarrow> string \<Rightarrow> string \<Rightarrow> string \<Rightarrow> event list \<times> (dl_error + string \<times> string)" where
  "DownloadToFile w ytdlpPath url formatID tempDir =
     (case ValidateURL w url of
        Some e \<Rightarrow> ([], Inl (UrlError e))
      | None \<Rightarrow>
          (let timestamp = UnixNano w;
               outputTemplate = filepath_Join tempDir (Itoa timestamp @ ''_%(title)s.%(ext)s'');
               args = ytdlp_args formatID outputTemplate url;
               ran = [EvExec ytdlpPath args]
           in case cmd_Output w args of
                ExitError \<Rightarrow> (ran, Inl (DownloadFailed []))
              | StartError msg \<Rightarrow> (ran, Inl (DownloadFailed msg))
              | Output outputStr \<Rightarrow>
                  (let pattern = filepath_Join tempDir (Itoa timestamp @ ''_*'');
                       globbed = ran @ [EvGlob pattern]
                   in case Glob w pattern of
                        None \<Rightarrow> (globbed, Inl FileNotFound)
                      | Some [] \<Rightarrow> (globbed, Inl FileNotFound)
                      | Some (filePath # others) \<Rightarrow>
                          (let filename = display_name filePath
                           in case os_Stat w filePath of
                                None \<Rightarrow> (globbed @ [EvStat filePath], Inl StatFailed)
                              | Some fsize \<Rightarrow>
                                  if fsize = 0
                                  then (globbed @ [EvStat filePath, EvRemove filePath], Inl FileEmpty)
                                  else (globbed @ [EvStat filePath], Inr (filePath, filename))))))"

section \<open>The download handler\<close>

record Request =
  Method :: string
  query_url :: string
  query_format_id :: string
  query_type :: string

text \<open>The ways \<open>ServeHTTP\<close> returns, one for each \<open>return\<close> and one for the end of the body.\<close>

datatype exit_path =
    MethodNotAllowed | MissingURL | BadEncoding | Busy | TempDirFailed | DownloadError
  | OpenFailed | StatError | StreamError | Complete

text \<open>
  The handler's state: the semaphore, the trace so far, and the deferred calls, the most recent
  first. When the function returns the deferred calls run in that order.
\<close>

datatype deferred = DeferRelease | DeferRemove string | DeferClose string

record hstate =
  sem :: Semaphore
  trace :: "event list"
  defers :: "deferred list"

definition emit :: "event \<Rightarrow> hstate \<Rightarrow> hstate" where
  "emit ev s = s\<lparr>trace := trace s @ [ev]\<rparr>"

definition emits :: "event list \<Rightarrow> hstate \<Rightarrow> hstate" where
  "emits evs s = s\<lparr>trace := trace s @ evs\<rparr>"

definition defer_call :: "deferred \<Rightarrow> hstate \<Rightarrow> hstate" where
  "defer_call d s = s\<lparr>defers := d # defers s\<rparr>"

definition run_deferred :: "deferred \<Rightarrow> hstate \<Rightarrow> hstate" where
  "run_deferred d s =
     (case d of
        DeferRelease \<Rightarrow> emit EvRelease (s\<lparr>sem := Release (sem s)\<rparr>)
      | DeferRemove path \<Rightarrow> emit (EvRemove path) s
      | DeferClose path \<Rightarrow> emit (EvClose path) s)"

fun unwind :: "deferred list \<Rightarrow> hstate \<Rightarrow> hstate" where
  "unwind [] s = s"
| "unwind (d # ds) s = unwind ds (run_deferred d s)"

definition return_from :: "hstate \<Rightarrow> hstate" where
  "return_from s = unwind (defers s) (s\<lparr>defers := []\<rparr>)"

definition json_error :: "string \<Rightarrow> string" where
  "json_error msg = ''{'' @ [CHR 0x22] @ ''error'' @ [CHR 0x22] @ '': '' @ [CHR 0x22] @ msg @ [CHR 0x22] @ ''}''"

text \<open>The header block: extension, content type and the five headers, in source order.\<close>

definition response_headers :: "world \<Rightarrow> string \<Rightarrow> int \<Rightarrow> (string \<times> string) list" where
  "response_headers w filename0 fsize =
     (let noext = (filepath_Ext filename0 = []);
          ext = (if noext then ''.mp4'' else filepath_Ext filename0);
          filename = (if noext then filename0 @ ext else filename0);
          sanitizedFilename =
            (if noext then sanitizeFilename filename0 @ ext else sanitizeFilename filename0);
          encodedFilename = PathEscape w filename;
          looked_up = TypeByExtension w ext;
          contentType = (if looked_up = [] then ''application/octet-stream'' else looked_up)
      in [(''Content-Type'', contentType),
          (''Content-Length'', Itoa fsize),
          (''Content-Disposition'',
             ''attachment; filename='' @ [CHR 0x22] @ sanitizedFilename @ [CHR 0x22]
             @ ''; filename*=UTF-8'' @ [CHR 0x27, CHR 0x27] @ encodedFilename),
          (''X-Content-Type-Options'', ''nosniff''),
          (''Cache-Control'', ''no-cache'')])"

text \<open>From \<open>os.Open\<close> to the end of the body; \<open>os.Remove\<close> is already deferred.\<close>

definition stream_file :: "world \<Rightarrow> string \<Rightarrow> string \<Rightarrow> hstate \<Rightarrow> exit_path \<times> hstate" where
  "stream_file w tempFile filename s0 =
     (let s1 = emit (EvOpen tempFile) s0
      in if \<not> os_Open w tempFile then
           (OpenFailed,
            emit (EvHttpError 500 (json_error ''Internal server error''))
              (emit (EvLog ''Failed to open temp file'') s1))
         else
           (let s2 = emit (EvFileStat tempFile) (defer_call (DeferClose tempFile) s1)
            in case file_Stat w tempFile of
                 None \<Rightarrow>
                   (StatError,
                    emit (EvHttpError 500 (json_error ''Internal server error''))
                      (emit (EvLog ''Failed to stat temp file'') s2))
               | Some fsize \<Rightarrow>
                   (let s3 = emits (map (\<lambda>(k, v). EvHeader k v) (response_headers w filename fsize)) s2;
                        s4 = emit (EvCopy tempFile) s3
                    in case io_Copy w tempFile of
                         (written, ok) \<Rightarrow>
                           if \<not> ok then (StreamError, emit (EvLog ''Failed to stream file'') s4)
                           else (Complete, emit (EvLog ''Download complete'') s4))))"

text \<open>From the line after \<open>defer h.semaphore.Release()\<close> to the download.\<close>

definition download_and_stream :: "world \<Rightarrow> string \<Rightarrow> string \<Rightarrow> string \<Rightarrow> hstate \<Rightarrow> exit_path \<times> hstate" where
  "download_and_stream w ytdlpPath decodedURL formatID s0 =
     (let tempDir = ''/tmp/viddown'';
          s1 = emit (EvMkdirAll tempDir) (emit (EvLog ''Starting download'') s0)
      in if \<not> MkdirAll w tempDir then
           (TempDirFailed,
            emit (EvHttpError 500 (json_error ''Internal server error''))
              (emit (EvLog ''Failed to create temp directory'') s1))
         else
           (case DownloadToFile w ytdlpPath decodedURL formatID tempDir of
              (evs, Inl err) \<Rightarrow>
                (DownloadError,
                 emit (EvHttpError 500 (json_error ''Download failed''))
                   (emit (EvLog ''Download failed'') (emits evs s1)))
            | (evs, Inr (tempFile, filename)) \<Rightarrow>
                stream_file w tempFile filename (defer_call (DeferRemove tempFile) (emits evs s1))))"

definition ServeHTTP_body :: "world \<Rightarrow> string \<Rightarrow> Request \<Rightarrow> hstate \<Rightarrow> exit_path \<times> hstate" where
  "ServeHTTP_body w ytdlpPath r s =
     (if Method r \<noteq> ''GET'' then
        (MethodNotAllowed, emit (EvHttpError 405 (json_error ''Method not allowed'')) s)
      else if query_url r = [] then
        (MissingURL, emit (EvHttpError 400 (json_error ''URL parameter is required'')) s)
      else
        (case QueryUnescape w (query_url r) of
           None \<Rightarrow>
             (BadEncoding,
              emit (EvHttpError 400 (json_error ''Invalid URL encoding''))
                (emit (EvLog ''Failed to decode URL'') s))
         | Some decodedURL \<Rightarrow>
             (let formatID = (if query_format_id r = [] then ''best'' else query_format_id r);
                  isAudioOnly = (query_type r = ''audio'')
              in case TryAcquire (sem s) of
                   (False, sm) \<Rightarrow>
                     (Busy,
                      emit (EvHttpError 503 (json_error ''Server busy. Please try again in a moment.''))
                        (emit (EvLog ''Too many concurrent downloads'')
                           (emit EvAvailable (emit (EvTryAcquire False) (s\<lparr>sem := sm\<rparr>)))))
                 | (True, sm) \<Rightarrow>
                     download_and_stream w ytdlpPath decodedURL formatID
                       (defer_call DeferRelease (emit (EvTryAcquire True) (s\<lparr>sem := sm\<rparr>))))))"

text \<open>One request: the body from an empty trace, then the deferred calls.\<close>

definition ServeHTTP :: "world \<Rightarrow> string \<Rightarrow> Request \<Rightarrow> Semaphore \<Rightarrow> exit_path \<times> hstate" where
  "ServeHTTP w ytdlpPath r sm =
     (case ServeHTTP_body w ytdlpPath r \<lparr>sem = sm, trace = [], defers = []\<rparr> of
        (path, s) \<Rightarrow> (path, return_from s))"

section \<open>Specification-side notions for the normalizer\<close>

text \<open>
  The deduplication as the specification words it, to be compared with the loop above: the
  signature of a descriptor is its (kind, quality label, container) triple, the candidates
  are the descriptors of the entries that are not skipped, in input order, and
  \<open>first_wins\<close> walks them keeping a descriptor exactly when its triple has not been
  met before.
\<close>

definition triple :: "Format \<Rightarrow> string \<times> string \<times> string" where
  "triple d = (Type d, Quality d, Ext d)"

definition candidates :: "ytdlpFormat list \<Rightarrow> Format list" where
  "candidates ys =
     List.map_filter
       (\<lambda>f. case classify f of Inl _ \<Rightarrow> None | Inr (t, q) \<Rightarrow> Some (mk_Format f t q)) ys"

fun first_wins :: "(string \<times> string \<times> string) list \<Rightarrow> Format list \<Rightarrow> Format list" where
  "first_wins met [] = []"
| "first_wins met (d # ds) =
     (if triple d \<in> set met then first_wins met ds else d # first_wins (triple d # met) ds)"

text \<open>The triples the classification can produce, and the key the loop stores for one.\<close>

definition producible :: "string \<times> string \<times> string \<Rightarrow> bool" where
  "producible k =
     (case k of (t, q, e) \<Rightarrow>
        (t = ''audio'' \<and> CHR ''-'' \<notin> set q) \<or> (t = ''video'' \<and> e = ''mp4''))"

definition key_of :: "string \<times> string \<times> string \<Rightarrow> string" where
  "key_of k = (case k of (t, q, e) \<Rightarrow> dedup_key t q e)"

text \<open>Sample entries: an mp4 and a webm video track, and two audio tracks.\<close>

definition raw_137 :: ytdlpFormat where
  "raw_137 =
     \<lparr>yt_FormatID = ''137'', yt_Ext = ''mp4'', yt_Resolution = ''1920x1080'',
      yt_VCodec = ''avc1.640028'', yt_ACodec = ''none'', yt_Filesize = 1000, yt_ABR = 0,
      yt_Height = 1080, yt_FormatNote = ''1080p''\<rparr>"

definition raw_140 :: ytdlpFormat where
  "raw_140 =
     \<lparr>yt_FormatID = ''140'', yt_Ext = ''m4a'', yt_Resolution = ''audio only'',
      yt_VCodec = ''none'', yt_ACodec = ''mp4a.40.2'', yt_Filesize = 100, yt_ABR = 128,
      yt_Height = 0, yt_FormatNote = ''medium''\<rparr>"

definition raw_251 :: ytdlpFormat where
  "raw_251 =
     \<lparr>yt_FormatID = ''251'', yt_Ext = ''webm'', yt_Resolution = ''audio only'',
      yt_VCodec = ''none'', yt_ACodec = ''opus'', yt_Filesize = 120, yt_ABR = 160,
      yt_Height = 0, yt_FormatNote = ''medium''\<rparr>"

definition raw_248 :: ytdlpFormat where
  "raw_248 =
     \<lparr>yt_FormatID = ''248'', yt_Ext = ''webm'', yt_Resolution = ''1920x1080'',
      yt_VCodec = ''vp9'', yt_ACodec = ''none'', yt_Filesize = 900, yt_ABR = 0,
      yt_Height = 1080, yt_FormatNote = ''1080p''\<rparr>"

text \<open>An entry whose codec tags are both absent.\<close>

definition raw_blank_codec :: ytdlpFormat where
  "raw_blank_codec =
     \<lparr>yt_FormatID = ''hls-720'', yt_Ext = ''mp4'', yt_Resolution = ''1280x720'',
      yt_VCodec = [], yt_ACodec = [], yt_Filesize = 0, yt_ABR = 0,
      yt_Height = 720, yt_FormatNote = []\<rparr>"

text \<open>Descriptors for all four tiers and two audio tracks.\<close>

definition tier_formats :: "Format list" where
  "tier_formats =
     [\<lparr>ID = ''18'', Type = ''video'', Quality = ''360p'', Ext = ''mp4'', Size = 10\<rparr>,
      \<lparr>ID = ''135'', Type = ''video'', Quality = ''480p'', Ext = ''mp4'', Size = 20\<rparr>,
      \<lparr>ID = ''136'', Type = ''video'', Quality = ''720p'', Ext = ''mp4'', Size = 30\<rparr>,
      \<lparr>ID = ''137'', Type = ''video'', Quality = ''1080p'', Ext = ''mp4'', Size = 40\<rparr>,
      \<lparr>ID = ''398'', Type = ''video'', Quality = ''720p60'', Ext = ''mp4'', Size = 35\<rparr>,
      \<lparr>ID = ''140'', Type = ''audio'', Quality = ''128kbps'', Ext = ''m4a'', Size = 5\<rparr>,
      \<lparr>ID = ''251'', Type = ''audio'', Quality = ''160kbps'', Ext = ''webm'', Size = 6\<rparr>]"


section \<open>Specification-side notions for the ranker\<close>

text \<open>
  The three kinds of offer, read off an entry of the output: the best-audio offer, and for
  a tier the merged (video + audio) and the video-only offer.
\<close>

definition is_best_audio :: "Format \<Rightarrow> bool" where
  "is_best_audio d = (Type d = ''audio'')"

definition is_merged :: "int \<Rightarrow> Format \<Rightarrow> bool" where
  "is_merged res d = (Type d = ''video'' \<and> Quality d = resLabels res @ video_audio_suffix)"

definition is_video_only :: "int \<Rightarrow> Format \<Rightarrow> bool" where
  "is_video_only res d = (Type d = ''video_only'' \<and> Quality d = resLabels res @ video_only_suffix)"

text \<open>
  The input of the worked example: a video track "137" (mp4, height 1080), an audio track
  "140" (bitrate 128) and an audio track "251" (bitrate 160, webm). The fields the
  example leaves open are left open here.
\<close>

definition example_input :: "ytdlpFormat \<Rightarrow> ytdlpFormat \<Rightarrow> ytdlpFormat \<Rightarrow> bool" where
  "example_input v a1 a2 =
     (yt_FormatID v = ''137'' \<and> yt_VCodec v \<noteq> ''none'' \<and> yt_Ext v = ''mp4'' \<and> yt_Height v = 1080 \<and>
      yt_FormatID a1 = ''140'' \<and> yt_VCodec a1 = ''none'' \<and> yt_ACodec a1 \<noteq> ''none'' \<and> yt_ABR a1 = 128 \<and>
      yt_FormatID a2 = ''251'' \<and> yt_VCodec a2 = ''none'' \<and> yt_ACodec a2 \<noteq> ''none'' \<and> yt_ABR a2 = 160 \<and>
      yt_Ext a2 = ''webm'')"

section \<open>Reading a trace\<close>

text \<open>
  The permit discipline as a monitor over a trace, \<open>h\<close> being the number of permits the
  handler holds: a granted \<open>TryAcquire\<close> adds one, \<open>Release\<close> needs one and gives it back,
  the external process may only be started while one is held, and at the end none is held.
\<close>

fun permit_discipline :: "nat \<Rightarrow> event list \<Rightarrow> bool" where
  "permit_discipline h [] = (h = 0)"
| "permit_discipline h (ev # evs) =
     (case ev of
        EvTryAcquire ok \<Rightarrow> permit_discipline (if ok then h + 1 else h) evs
      | EvRelease \<Rightarrow> 0 < h \<and> permit_discipline (h - 1) evs
      | EvExec bin args \<Rightarrow> 0 < h \<and> permit_discipline h evs
      | _ \<Rightarrow> permit_discipline h evs)"

text \<open>The exit paths behind the semaphore, and those behind a successful download.\<close>

fun acquires :: "exit_path \<Rightarrow> bool" where
  "acquires MethodNotAllowed = False"
| "acquires MissingURL = False"
| "acquires BadEncoding = False"
| "acquires Busy = False"
| "acquires _ = True"

fun reaches_file :: "exit_path \<Rightarrow> bool" where
  "reaches_file OpenFailed = True"
| "reaches_file StatError = True"
| "reaches_file StreamError = True"
| "reaches_file Complete = True"
| "reaches_file _ = False"

definition permit_quiet :: "event list \<Rightarrow> bool" where
  "permit_quiet evs = list_all (\<lambda>ev. ev \<noteq> EvRelease \<and> ev \<noteq> EvTryAcquire True) evs"

definition exec_free :: "event list \<Rightarrow> bool" where
  "exec_free evs = list_all (\<lambda>ev. case ev of EvExec bin args \<Rightarrow> False | _ \<Rightarrow> True) evs"

definition remove_free :: "event list \<Rightarrow> bool" where
  "remove_free evs = list_all (\<lambda>ev. case ev of EvRemove path \<Rightarrow> False | _ \<Rightarrow> True) evs"

definition header_free :: "event list \<Rightarrow> bool" where
  "header_free evs = list_all (\<lambda>ev. case ev of EvHeader k v \<Rightarrow> False | _ \<Rightarrow> True) evs"

definition deferred_event :: "deferred \<Rightarrow> event" where
  "deferred_event d =
     (case d of DeferRelease \<Rightarrow> EvRelease | DeferRemove path \<Rightarrow> EvRemove path
      | DeferClose path \<Rightarrow> EvClose path)"

definition header_values :: "string \<Rightarrow> event list \<Rightarrow> string list" where
  "header_values name tr =
     List.map_filter
       (\<lambda>ev. case ev of EvHeader k v \<Rightarrow> if k = name then Some v else None | _ \<Rightarrow> None) tr"

text \<open>
  The condition under which the handler gets as far as the semaphore with the decoded URL \<open>u\<close>,
  and the format identifier it then uses.
\<close>

definition reaches_semaphore :: "world \<Rightarrow> Request \<Rightarrow> string \<Rightarrow> bool" where
  "reaches_semaphore w r u =
     (Method r = ''GET'' \<and> query_url r \<noteq> [] \<and> QueryUnescape w (query_url r) = Some u)"

definition requested_format :: "Request \<Rightarrow> string" where
  "requested_format r = (if query_format_id r = [] then ''best'' else query_format_id r)"

section \<open>Sample worlds\<close>

text \<open>
  A media-type table that knows mp4, webm and m4a, and a world in which everything
  succeeds: the extractor leaves one file \<open>clip.mp4\<close> of 1024 bytes under the job's prefix.
  The URL and the file name hold no character that the two escaping functions change.
\<close>

definition mime_table :: "string \<Rightarrow> string" where
  "mime_table ext =
     (if ext = ''.mp4'' then ''video/mp4'' else if ext = ''.webm'' then ''video/webm''
      else if ext = ''.m4a'' then ''audio/mp4'' else [])"

definition world_ok :: world where
  "world_ok =
     \<lparr>QueryUnescape = Some, MkdirAll = (\<lambda>_. True), ValidateURL = (\<lambda>_. None),
      UnixNano = 1700000000000000000, cmd_Output = (\<lambda>_. Output []),
      Glob = (\<lambda>_. Some [''/tmp/viddown/1700000000000000000_clip.mp4'']),
      os_Stat = (\<lambda>_. Some 1024), os_Open = (\<lambda>_. True), file_Stat = (\<lambda>_. Some 1024),
      io_Copy = (\<lambda>_. (1024, True)), TypeByExtension = mime_table, PathEscape = (\<lambda>n. n)\<rparr>"

text \<open>The same world with a second file under the prefix, and with an mkv file instead.\<close>

definition world_two_matches :: world where
  "world_two_matches =
     world_ok\<lparr>Glob := (\<lambda>_. Some [''/tmp/viddown/1700000000000000000_clip.mp4'',
                                 ''/tmp/viddown/1700000000000000000_clip.webp''])\<rparr>"

definition world_mkv :: world where
  "world_mkv = world_ok\<lparr>Glob := (\<lambda>_. Some [''/tmp/viddown/1700000000000000000_clip.mkv''])\<rparr>"

text \<open>The same world with no file under the prefix.\<close>

definition world_no_match :: world where
  "world_no_match = world_ok\<lparr>Glob := (\<lambda>_. Some [])\<rparr>"

text \<open>The same world with the client gone during the copy.\<close>

definition world_copy_fails :: world where
  "world_copy_fails = world_ok\<lparr>io_Copy := (\<lambda>_. (100, False))\<rparr>"

definition request_ok :: Request where
  "request_ok =
     \<lparr>Method = ''GET'', query_url = ''https://youtu.be/abc'', query_format_id = ''137+251'',
      query_type = ''video''\<rparr>"

definition sem_open :: Semaphore where
  "sem_open = \<lparr>capacity = 3, held = 1\<rparr>"

definition sem_full :: Semaphore where
  "sem_full = \<lparr>capacity = 3, held = 3\<rparr>"

section \<open>Properties of the normalizer\<close>

subsection \<open>What the printing functions can produce\<close>

lemma digit_char_is_digit: "d < 10 \<Longrightarrow> digit_char d \<in> set ''0123456789''"
proof -
  assume "d < 10"
  then have "d < length ''0123456789''" by simp
  then show ?thesis unfolding digit_char_def by (rule nth_mem)
qed

lemma show_nat_digits: "set (show_nat n) \<subseteq> set ''0123456789''"
proof (induction n rule: show_nat.induct)
  case (1 n)
  show ?case
  proof (cases "n < 10")
    case True
    then show ?thesis using digit_char_is_digit [of n] by (simp add: show_nat.simps [of n])
  next
    case False
    have "n mod 10 < 10" by simp
    then have "digit_char (n mod 10) \<in> set ''0123456789''" by (rule digit_char_is_digit)
    with False 1 show ?thesis by (simp add: show_nat.simps [of n])
  qed
qed

lemma show_nat_no_dash: "CHR ''-'' \<notin> set (show_nat n)"
  using show_nat_digits [of n] by auto

lemma Sprintf_f0_no_dash: "0 < x \<Longrightarrow> CHR ''-'' \<notin> set (Sprintf_f0 x)"
  by (simp add: Sprintf_f0_def show_nat_no_dash)

lemma classify_cases:
  assumes "classify f = Inr (t, q)"
  shows "(t = ''audio'' \<and> CHR ''-'' \<notin> set q) \<or> (t = ''video'' \<and> yt_Ext f = ''mp4'')"
  using assms by (auto simp: classify_def Sprintf_f0_no_dash split: if_splits)

lemma classify_producible: "classify f = Inr (t, q) \<Longrightarrow> producible (t, q, yt_Ext f)"
  using classify_cases [of f t q] by (auto simp: producible_def)

subsection \<open>The string key separates the producible triples\<close>

lemma split_at_sep:
  "c \<notin> set xs \<Longrightarrow> c \<notin> set xs' \<Longrightarrow> xs @ c # ys = xs' @ c # ys' \<Longrightarrow> xs = xs' \<and> ys = ys'"
proof (induction xs arbitrary: xs')
  case Nil
  then show ?case by (cases xs') auto
next
  case (Cons x xs)
  then show ?case by (cases xs') auto
qed

lemma key_of_inj:
  assumes "producible k" "producible k'" "key_of k = key_of k'"
  shows "k = k'"
proof -
  obtain t q e where k: "k = (t, q, e)" by (cases k)
  obtain t' q' e' where k': "k' = (t', q', e')" by (cases k')
  from assms(3) have eq: "t @ ''-'' @ q @ ''-'' @ e = t' @ ''-'' @ q' @ ''-'' @ e'"
    by (simp add: k k' key_of_def dedup_key_def)
  from assms(1,2) consider
      (aa) "t = ''audio''" "t' = ''audio''" "CHR ''-'' \<notin> set q" "CHR ''-'' \<notin> set q'"
    | (vv) "t = ''video''" "t' = ''video''" "e = ''mp4''" "e' = ''mp4''"
    | (av) "t = ''audio''" "t' = ''video''"
    | (va) "t = ''video''" "t' = ''audio''"
    by (auto simp: producible_def k k')
  then show ?thesis
  proof cases
    case aa
    with eq have "q @ CHR ''-'' # e = q' @ CHR ''-'' # e'" by simp
    with aa(3,4) have "q = q' \<and> e = e'" by (rule split_at_sep)
    with aa show ?thesis by (simp add: k k')
  next
    case vv
    with eq show ?thesis by (simp add: k k')
  next
    case av
    with eq show ?thesis by simp
  next
    case va
    with eq show ?thesis by simp
  qed
qed

subsection \<open>The loop computes \<open>first_wins\<close>\<close>

lemma triple_mk_Format: "triple (mk_Format f t q) = (t, q, yt_Ext f)"
  by (simp add: triple_def mk_Format_def)

lemma parseFormats_loop_first_wins:
  assumes "\<forall>k. producible k \<longrightarrow> seen (key_of k) = (k \<in> set met)"
  shows "parseFormats_loop ys seen acc = acc @ first_wins met (candidates ys)"
  using assms
proof (induction ys arbitrary: seen met acc)
  case Nil
  then show ?case by (simp add: candidates_def map_filter_simps)
next
  case (Cons f fs)
  show ?case
  proof (cases "classify f")
    case (Inl e)
    with Cons show ?thesis by (simp add: candidates_def map_filter_simps)
  next
    case (Inr tq)
    obtain t q where tq: "tq = (t, q)" by (cases tq)
    let ?k = "(t, q, yt_Ext f)"
    have prod: "producible ?k" using Inr tq classify_producible by simp
    have cand: "candidates (f # fs) = mk_Format f t q # candidates fs"
      using Inr tq by (simp add: candidates_def map_filter_simps)
    have key: "dedup_key t q (yt_Ext f) = key_of ?k" by (simp add: key_of_def)
    have seen_k: "seen (key_of ?k) = (?k \<in> set met)" using Cons.prems prod by blast
    show ?thesis
    proof (cases "?k \<in> set met")
      case True
      with seen_k have "seen (key_of ?k)" by simp
      then have "parseFormats_loop (f # fs) seen acc = parseFormats_loop fs seen acc"
        using Inr tq key by simp
      also have "\<dots> = acc @ first_wins met (candidates fs)"
        using Cons.IH [OF Cons.prems] .
      finally show ?thesis using True by (simp add: cand triple_mk_Format)
    next
      case False
      with seen_k have ns: "\<not> seen (key_of ?k)" by simp
      have inv: "\<forall>k. producible k \<longrightarrow>
                   (seen(key_of ?k := True)) (key_of k) = (k \<in> set (?k # met))"
      proof (intro allI impI)
        fix k assume pk: "producible k"
        show "(seen(key_of ?k := True)) (key_of k) = (k \<in> set (?k # met))"
        proof (cases "key_of k = key_of ?k")
          case True
          then have "k = ?k" using key_of_inj [OF pk prod] by simp
          then show ?thesis by simp
        next
          case False
          then have ne: "k \<noteq> ?k" by auto
          have "seen (key_of k) = (k \<in> set met)" using Cons.prems pk by blast
          with False ne show ?thesis by simp
        qed
      qed
      have "parseFormats_loop (f # fs) seen acc =
            parseFormats_loop fs (seen(key_of ?k := True)) (acc @ [mk_Format f t q])"
        using Inr tq key ns by simp
      also have "\<dots> = (acc @ [mk_Format f t q]) @ first_wins (?k # met) (candidates fs)"
        using Cons.IH [OF inv] .
      finally show ?thesis using False by (simp add: cand triple_mk_Format)
    qed
  qed
qed

lemma parseFormats_first_wins: "parseFormats ys = first_wins [] (candidates ys)"
  unfolding parseFormats_def
  using parseFormats_loop_first_wins [of "\<lambda>_. False" "[]" ys "[]"] by simp

lemma first_wins_triples:
  "distinct (map triple (first_wins met ds)) \<and> set (map triple (first_wins met ds)) \<inter> set met = {}"
proof (induction ds arbitrary: met)
  case Nil
  then show ?case by simp
next
  case (Cons d ds)
  show ?case
  proof (cases "triple d \<in> set met")
    case True
    with Cons [of met] show ?thesis by simp
  next
    case False
    with Cons [of "triple d # met"] show ?thesis by auto
  qed
qed

lemma first_wins_subseq: "subseq (first_wins met ds) ds"
  by (induction ds arbitrary: met) auto

lemma first_wins_covers:
  "set (map triple (first_wins met ds)) \<union> set met = set (map triple ds) \<union> set met"
proof (induction ds arbitrary: met)
  case Nil
  then show ?case by simp
next
  case (Cons d ds)
  show ?case
  proof (cases "triple d \<in> set met")
    case True
    with Cons [of met] show ?thesis by auto
  next
    case False
    have "set (map triple (first_wins (triple d # met) ds)) \<union> set (triple d # met) =
          set (map triple ds) \<union> set (triple d # met)"
      by (rule Cons)
    with False show ?thesis by auto
  qed
qed

lemma candidates_append: "candidates (xs @ ys) = candidates xs @ candidates ys"
  by (simp add: candidates_def map_filter_def)

lemma candidates_video_mp4:
  "d \<in> set (candidates ys) \<Longrightarrow> Type d = ''video'' \<Longrightarrow> Ext d = ''mp4''"
  by (induction ys)
     (auto simp: candidates_def map_filter_simps mk_Format_def classify_def
           split: sum.splits if_splits)

lemma first_wins_subset: "set (first_wins met ds) \<subseteq> set ds"
  by (induction ds arbitrary: met) auto

lemma classify_video_not_mp4:
  "yt_VCodec f \<noteq> ''none'' \<Longrightarrow> yt_Ext f \<noteq> ''mp4'' \<Longrightarrow> classify f \<in> {Inl NoFormatID, Inl NotMp4}"
  by (simp add: classify_def)

lemma candidates_skip: "classify f = Inl e \<Longrightarrow> candidates (xs @ f # zs) = candidates (xs @ zs)"
  by (simp add: candidates_def map_filter_def)

subsection \<open>Claims about the normalizer\<close>

text \<open>
  C6. For every input sequence the output of \<open>parseFormats\<close> holds no two descriptors with
  the same (kind, quality label, container) triple. The output is what \<open>first_wins\<close> keeps
  of the candidate descriptors: the first occurrence of each triple, in input order (it is
  a subsequence of the candidates), and every candidate's triple survives.
\<close>

theorem parseFormats_no_duplicate_triples:
  "distinct (map triple (parseFormats ys)) \<and>
   parseFormats ys = first_wins [] (candidates ys) \<and>
   subseq (parseFormats ys) (candidates ys) \<and>
   set (map triple (parseFormats ys)) = set (map triple (candidates ys))"
  using first_wins_triples [of "[]" "candidates ys"] first_wins_subseq [of "[]" "candidates ys"]
    first_wins_covers [of "[]" "candidates ys"]
  by (simp add: parseFormats_first_wins)

theorem parseFormats_no_duplicate_triples_witness:
  "distinct (map triple
     (parseFormats [raw_140, raw_137, raw_140, raw_137\<lparr>yt_FormatID := ''299''\<rparr>, raw_251])) \<and>
   map ID (parseFormats [raw_140, raw_137, raw_140, raw_137\<lparr>yt_FormatID := ''299''\<rparr>, raw_251])
     = [''140'', ''137'', ''251''] \<and>
   map ID (candidates [raw_140, raw_137, raw_140, raw_137\<lparr>yt_FormatID := ''299''\<rparr>, raw_251])
     = [''140'', ''137'', ''140'', ''299'', ''251'']"
  using parseFormats_no_duplicate_triples
    [of "[raw_140, raw_137, raw_140, raw_137\<lparr>yt_FormatID := ''299''\<rparr>, raw_251]"]
  by code_simp

text \<open>
  C7. No descriptor of kind \<open>video\<close> with a container other than mp4 is in the output of
  \<open>parseFormats\<close>; an entry with a video track (codec tag other than "none") and another
  container is skipped, and the output is the same as if the entry were not in the input.
\<close>

theorem parseFormats_video_only_mp4:
  "(\<forall>d \<in> set (parseFormats ys). Type d = ''video'' \<longrightarrow> Ext d = ''mp4'') \<and>
   (yt_VCodec f \<noteq> ''none'' \<and> yt_Ext f \<noteq> ''mp4'' \<longrightarrow>
      classify f \<in> {Inl NoFormatID, Inl NotMp4} \<and>
      parseFormats (xs @ f # zs) = parseFormats (xs @ zs))"
proof (intro conjI ballI impI)
  fix d
  assume "d \<in> set (parseFormats ys)" and v: "Type d = ''video''"
  then have "d \<in> set (candidates ys)"
    using first_wins_subset [of "[]" "candidates ys"] by (auto simp: parseFormats_first_wins)
  then show "Ext d = ''mp4''" using v by (rule candidates_video_mp4)
next
  assume a: "yt_VCodec f \<noteq> ''none'' \<and> yt_Ext f \<noteq> ''mp4''"
  then show c: "classify f \<in> {Inl NoFormatID, Inl NotMp4}"
    using classify_video_not_mp4 by blast
  then obtain e where "classify f = Inl e" by auto
  then show "parseFormats (xs @ f # zs) = parseFormats (xs @ zs)"
    by (simp add: parseFormats_first_wins candidates_skip)
qed

theorem parseFormats_video_only_mp4_witness:
  "parseFormats [raw_137, raw_140] =
     [mk_Format raw_137 ''video'' ''1080p'', mk_Format raw_140 ''audio'' ''128kbps''] \<and>
   Ext (mk_Format raw_137 ''video'' ''1080p'') = ''mp4'' \<and>
   yt_VCodec raw_248 \<noteq> ''none'' \<and> yt_Ext raw_248 \<noteq> ''mp4'' \<and>
   classify raw_248 = Inl NotMp4 \<and>
   parseFormats ([raw_137] @ raw_248 # [raw_140]) = parseFormats ([raw_137] @ [raw_140])"
  using parseFormats_video_only_mp4 [of "[raw_137, raw_140]" raw_248 "[raw_137]" "[raw_140]"]
  by code_simp

text \<open>
  C10. An entry whose video codec tag is the empty string is taken as a video track,
  whatever its audio codec tag: it is never classified as audio and never skipped for
  having no track. It is skipped for its container exactly when it has an identifier and
  the container is not mp4, and what it contributes to the output is of kind \<open>video\<close>.
\<close>

theorem blank_vcodec_is_video:
  assumes "yt_VCodec f = []"
  shows "(case classify f of
            Inl e \<Rightarrow> e \<noteq> NoTrack \<and> (e = NotMp4) = (yt_FormatID f \<noteq> [] \<and> yt_Ext f \<noteq> ''mp4'')
          | Inr (t, q) \<Rightarrow> t = ''video'' \<and> yt_Ext f = ''mp4'') \<and>
         (\<forall>d \<in> set (parseFormats [f]). Type d = ''video'' \<and> Ext d = ''mp4'')"
  using assms by (auto simp: classify_def parseFormats_def mk_Format_def Let_def split: sum.splits)

theorem blank_vcodec_is_video_witness:
  "yt_VCodec raw_blank_codec = [] \<and> yt_ACodec raw_blank_codec = [] \<and>
   classify raw_blank_codec = Inr (''video'', ''720p'') \<and>
   classify (raw_blank_codec\<lparr>yt_Ext := ''webm''\<rparr>) = Inl NotMp4 \<and>
   map Type (parseFormats [raw_blank_codec]) = [''video'']"
  using blank_vcodec_is_video [of raw_blank_codec]
    blank_vcodec_is_video [of "raw_blank_codec\<lparr>yt_Ext := ''webm''\<rparr>"]
  by code_simp

section \<open>Properties of the ranker\<close>

lemma tier_scan_append: "tier_scan res ba fs best = best @ tier_scan res ba fs []"
  by (induction fs) (auto split: option.splits)

lemma tier_scan_shape:
  "tier_scan res ba fs [] = [] \<or>
   (\<exists>f. ba = None \<and> tier_scan res ba fs [] = [video_only_offer res f]) \<or>
   (\<exists>f a. ba = Some a \<and> tier_scan res ba fs [] = [merged_offer res f a, video_only_offer res f])"
  by (induction fs) (auto split: option.splits)

lemma tiers_loop_unfold:
  "tiers_loop resolutions ba fs best =
     best @ tier_scan 360 ba fs [] @ tier_scan 480 ba fs [] @ tier_scan 720 ba fs []
          @ tier_scan 1080 ba fs []"
proof -
  have "tiers_loop resolutions ba fs best =
        tier_scan 1080 ba fs (tier_scan 720 ba fs (tier_scan 480 ba fs (tier_scan 360 ba fs best)))"
    by (simp add: resolutions_def)
  also have "\<dots> = best @ tier_scan 360 ba fs [] @ tier_scan 480 ba fs [] @ tier_scan 720 ba fs []
          @ tier_scan 1080 ba fs []"
    using tier_scan_append [of 1080 ba fs "tier_scan 720 ba fs (tier_scan 480 ba fs (tier_scan 360 ba fs best))"]
      tier_scan_append [of 720 ba fs "tier_scan 480 ba fs (tier_scan 360 ba fs best)"]
      tier_scan_append [of 480 ba fs "tier_scan 360 ba fs best"]
      tier_scan_append [of 360 ba fs best]
    by simp
  finally show ?thesis .
qed

lemma tier_scan_length: "length (tier_scan res ba fs []) \<le> 2"
  using tier_scan_shape [of res ba fs] by auto

lemma tier_scan_no_audio: "filter is_best_audio (tier_scan res ba fs []) = []"
  using tier_scan_shape [of res ba fs]
  by (auto simp: is_best_audio_def merged_offer_def video_only_offer_def)

lemma tier_scan_merged:
  "length (filter (is_merged r) (tier_scan res ba fs [])) \<le> (if resLabels res = resLabels r then 1 else 0)"
  using tier_scan_shape [of res ba fs]
  by (auto simp: is_merged_def merged_offer_def video_only_offer_def)

lemma tier_scan_video_only:
  "length (filter (is_video_only r) (tier_scan res ba fs [])) \<le> (if resLabels res = resLabels r then 1 else 0)"
  using tier_scan_shape [of res ba fs]
  by (auto simp: is_video_only_def merged_offer_def video_only_offer_def)

lemma resLabels_distinct:
  "r \<in> set resolutions \<Longrightarrow> r' \<in> set resolutions \<Longrightarrow> (resLabels r' = resLabels r) = (r' = r)"
  by (auto simp: resolutions_def resLabels_def)

lemma audio_part_counts:
  "length (case ba of None \<Rightarrow> [] | Some a \<Rightarrow> [best_audio_offer a]) \<le> 1"
  "length (filter is_best_audio (case ba of None \<Rightarrow> [] | Some a \<Rightarrow> [best_audio_offer a])) \<le> 1"
  "filter (is_merged r) (case ba of None \<Rightarrow> [] | Some a \<Rightarrow> [best_audio_offer a]) = []"
  "filter (is_video_only r) (case ba of None \<Rightarrow> [] | Some a \<Rightarrow> [best_audio_offer a]) = []"
  by (auto simp: is_merged_def is_video_only_def best_audio_offer_def split: option.splits)

lemma GetBestFormats_unfold:
  "GetBestFormats fs =
     (case bestAudio_loop fs None of None \<Rightarrow> [] | Some a \<Rightarrow> [best_audio_offer a])
     @ tier_scan 360 (bestAudio_loop fs None) fs [] @ tier_scan 480 (bestAudio_loop fs None) fs []
     @ tier_scan 720 (bestAudio_loop fs None) fs [] @ tier_scan 1080 (bestAudio_loop fs None) fs []"
  by (simp add: GetBestFormats_def Let_def tiers_loop_unfold)

lemma GetBestFormats_length: "length (GetBestFormats fs) \<le> 9"
  using tier_scan_length [of 360 "bestAudio_loop fs None" fs]
    tier_scan_length [of 480 "bestAudio_loop fs None" fs]
    tier_scan_length [of 720 "bestAudio_loop fs None" fs]
    tier_scan_length [of 1080 "bestAudio_loop fs None" fs]
    audio_part_counts(1) [of "bestAudio_loop fs None"]
  by (simp add: GetBestFormats_unfold)

lemma GetBestFormats_one_audio: "length (filter is_best_audio (GetBestFormats fs)) \<le> 1"
  using audio_part_counts(2) [of "bestAudio_loop fs None"]
  by (simp add: GetBestFormats_unfold tier_scan_no_audio)

lemma GetBestFormats_one_merged:
  assumes "r \<in> set resolutions"
  shows "length (filter (is_merged r) (GetBestFormats fs)) \<le> 1"
proof -
  let ?ba = "bestAudio_loop fs None"
  have m: "length (filter (is_merged r) (tier_scan res ?ba fs [])) \<le> (if res = r then 1 else 0)"
    if "res \<in> set resolutions" for res
  proof -
    have "(resLabels res = resLabels r) = (res = r)"
      using assms that by (rule resLabels_distinct)
    with tier_scan_merged [of r res ?ba fs] show ?thesis by simp
  qed
  have "length (filter (is_merged r) (GetBestFormats fs)) =
        length (filter (is_merged r) (tier_scan 360 ?ba fs [])) +
        length (filter (is_merged r) (tier_scan 480 ?ba fs [])) +
        length (filter (is_merged r) (tier_scan 720 ?ba fs [])) +
        length (filter (is_merged r) (tier_scan 1080 ?ba fs []))"
    by (simp add: GetBestFormats_unfold audio_part_counts(3))
  also have "\<dots> \<le> (if 360 = r then 1 else 0) + (if 480 = r then 1 else 0)
                 + (if 720 = r then 1 else 0) + (if 1080 = r then 1 else 0)"
    using m [of 360] m [of 480] m [of 720] m [of 1080] by (simp add: resolutions_def add_mono)
  also have "\<dots> \<le> 1" by simp
  finally show ?thesis .
qed

lemma GetBestFormats_one_video_only:
  assumes "r \<in> set resolutions"
  shows "length (filter (is_video_only r) (GetBestFormats fs)) \<le> 1"
proof -
  let ?ba = "bestAudio_loop fs None"
  have m: "length (filter (is_video_only r) (tier_scan res ?ba fs [])) \<le> (if res = r then 1 else 0)"
    if "res \<in> set resolutions" for res
  proof -
    have "(resLabels res = resLabels r) = (res = r)"
      using assms that by (rule resLabels_distinct)
    with tier_scan_video_only [of r res ?ba fs] show ?thesis by simp
  qed
  have "length (filter (is_video_only r) (GetBestFormats fs)) =
        length (filter (is_video_only r) (tier_scan 360 ?ba fs [])) +
        length (filter (is_video_only r) (tier_scan 480 ?ba fs [])) +
        length (filter (is_video_only r) (tier_scan 720 ?ba fs [])) +
        length (filter (is_video_only r) (tier_scan 1080 ?ba fs []))"
    by (simp add: GetBestFormats_unfold audio_part_counts(4))
  also have "\<dots> \<le> (if 360 = r then 1 else 0) + (if 480 = r then 1 else 0)
                 + (if 720 = r then 1 else 0) + (if 1080 = r then 1 else 0)"
    using m [of 360] m [of 480] m [of 720] m [of 1080] by (simp add: resolutions_def add_mono)
  also have "\<dots> \<le> 1" by simp
  finally show ?thesis .
qed

lemma tier_scan_kinds:
  "d \<in> set (tier_scan res ba fs []) \<Longrightarrow> is_merged res d \<or> is_video_only res d"
  using tier_scan_shape [of res ba fs]
  by (auto simp: is_merged_def is_video_only_def merged_offer_def video_only_offer_def)

lemma GetBestFormats_kinds:
  assumes "d \<in> set (GetBestFormats fs)"
  shows "is_best_audio d \<or> (\<exists>res \<in> set resolutions. is_merged res d \<or> is_video_only res d)"
proof -
  let ?ba = "bestAudio_loop fs None"
  from assms consider
      (a) "d \<in> set (case ?ba of None \<Rightarrow> [] | Some a \<Rightarrow> [best_audio_offer a])"
    | (t) res where "res \<in> set resolutions" "d \<in> set (tier_scan res ?ba fs [])"
    by (auto simp: GetBestFormats_unfold resolutions_def)
  then show ?thesis
  proof cases
    case a
    then show ?thesis by (auto simp: is_best_audio_def best_audio_offer_def split: option.splits)
  next
    case t
    then show ?thesis using tier_scan_kinds by blast
  qed
qed

text \<open>
  C8. For every input \<open>GetBestFormats\<close> returns at most 9 entries: at most one best-audio
  offer and, for each of the tiers 360, 480, 720 and 1080, at most one merged and at most
  one video-only offer; every entry is one of these.
\<close>

theorem GetBestFormats_bound:
  "length (GetBestFormats fs) \<le> 9 \<and>
   length (filter is_best_audio (GetBestFormats fs)) \<le> 1 \<and>
   (\<forall>res \<in> set resolutions.
      length (filter (is_merged res) (GetBestFormats fs)) \<le> 1 \<and>
      length (filter (is_video_only res) (GetBestFormats fs)) \<le> 1) \<and>
   (\<forall>d \<in> set (GetBestFormats fs).
      is_best_audio d \<or> (\<exists>res \<in> set resolutions. is_merged res d \<or> is_video_only res d))"
  using GetBestFormats_length GetBestFormats_one_audio GetBestFormats_one_merged
    GetBestFormats_one_video_only GetBestFormats_kinds
  by blast

lemma tier_formats_ranked:
  "GetBestFormats tier_formats =
     [\<lparr>ID = ''251'', Type = ''audio'', Quality = best_audio_label @ ''160kbps)'', Ext = ''webm'',
       Size = 6\<rparr>,
      merged_offer 360 (tier_formats ! 0) (tier_formats ! 6), video_only_offer 360 (tier_formats ! 0),
      merged_offer 480 (tier_formats ! 1) (tier_formats ! 6), video_only_offer 480 (tier_formats ! 1),
      merged_offer 720 (tier_formats ! 2) (tier_formats ! 6), video_only_offer 720 (tier_formats ! 2),
      merged_offer 1080 (tier_formats ! 3) (tier_formats ! 6),
      video_only_offer 1080 (tier_formats ! 3)]"
  by code_simp

theorem GetBestFormats_bound_witness:
  "length (GetBestFormats tier_formats) = 9 \<and>
   length (filter is_best_audio (GetBestFormats tier_formats)) = 1 \<and>
   length (filter (is_merged 720) (GetBestFormats tier_formats)) = 1 \<and>
   length (filter (is_video_only 720) (GetBestFormats tier_formats)) = 1 \<and>
   map ID (GetBestFormats tier_formats) =
     [''251'', ''18+251'', ''18'', ''135+251'', ''135'', ''136+251'', ''136'', ''137+251'', ''137'']"
  using GetBestFormats_bound [of tier_formats]
  unfolding tier_formats_ranked
  by (simp add: is_best_audio_def is_merged_def is_video_only_def
      merged_offer_def video_only_offer_def resLabels_def tier_formats_def)

subsection \<open>The worked example\<close>

lemma Itoa_1080: "Itoa 1080 = ''1080''" by code_simp
lemma Sprintf_f0_128: "Sprintf_f0 128 = ''128''" by code_simp
lemma Sprintf_f0_160: "Sprintf_f0 160 = ''160''" by code_simp
lemma extractBitrate_128: "extractBitrate ''128kbps'' = 128" by code_simp
lemma extractBitrate_160: "extractBitrate ''160kbps'' = 160" by code_simp
lemma HasPrefix_1080p:
  "\<not> HasPrefix ''1080p'' (Itoa 360)" "\<not> HasPrefix ''1080p'' (Itoa 480)"
  "\<not> HasPrefix ''1080p'' (Itoa 720)" "HasPrefix ''1080p'' (Itoa 1080)"
  by code_simp+

text \<open>
  C5, as the code has it. On the example input \<open>parseFormats\<close> yields the 1080p video
  descriptor and the two audio descriptors "128kbps" and "160kbps"; \<open>GetBestFormats\<close>
  picks the 160kbps audio as best and returns the best-audio offer "251", the merged offer
  "137+251" and the video-only offer "137". The labels of the two video offers are
  "1080p Full HD" followed by the Russian suffixes of the source.
\<close>

theorem normalizer_ranker_example:
  assumes ex: "example_input v a1 a2"
  shows "parseFormats [v, a1, a2] =
           [\<lparr>ID = ''137'', Type = ''video'', Quality = ''1080p'', Ext = ''mp4'', Size = yt_Filesize v\<rparr>,
            \<lparr>ID = ''140'', Type = ''audio'', Quality = ''128kbps'', Ext = yt_Ext a1, Size = yt_Filesize a1\<rparr>,
            \<lparr>ID = ''251'', Type = ''audio'', Quality = ''160kbps'', Ext = ''webm'', Size = yt_Filesize a2\<rparr>] \<and>
         bestAudio_loop (parseFormats [v, a1, a2]) None =
           Some \<lparr>ID = ''251'', Type = ''audio'', Quality = ''160kbps'', Ext = ''webm'', Size = yt_Filesize a2\<rparr> \<and>
         GetBestFormats (parseFormats [v, a1, a2]) =
           [\<lparr>ID = ''251'', Type = ''audio'', Quality = best_audio_label @ ''160kbps)'',
             Ext = ''webm'', Size = yt_Filesize a2\<rparr>,
            \<lparr>ID = ''137+251'', Type = ''video'', Quality = ''1080p Full HD'' @ video_audio_suffix,
             Ext = ''mp4'', Size = yt_Filesize v + yt_Filesize a2\<rparr>,
            \<lparr>ID = ''137'', Type = ''video_only'', Quality = ''1080p Full HD'' @ video_only_suffix,
             Ext = ''mp4'', Size = yt_Filesize v\<rparr>]"
proof -
  have cv: "classify v = Inr (''video'', ''1080p'')"
    using ex by (simp add: example_input_def classify_def Itoa_1080)
  have c1: "classify a1 = Inr (''audio'', ''128kbps'')"
    using ex by (simp add: example_input_def classify_def Sprintf_f0_128)
  have c2: "classify a2 = Inr (''audio'', ''160kbps'')"
    using ex by (simp add: example_input_def classify_def Sprintf_f0_160)
  have pf: "parseFormats [v, a1, a2] =
           [\<lparr>ID = ''137'', Type = ''video'', Quality = ''1080p'', Ext = ''mp4'', Size = yt_Filesize v\<rparr>,
            \<lparr>ID = ''140'', Type = ''audio'', Quality = ''128kbps'', Ext = yt_Ext a1, Size = yt_Filesize a1\<rparr>,
            \<lparr>ID = ''251'', Type = ''audio'', Quality = ''160kbps'', Ext = ''webm'', Size = yt_Filesize a2\<rparr>]"
    using ex
    by (simp add: example_input_def parseFormats_def cv c1 c2 dedup_key_def mk_Format_def)
  have ba: "bestAudio_loop (parseFormats [v, a1, a2]) None =
           Some \<lparr>ID = ''251'', Type = ''audio'', Quality = ''160kbps'', Ext = ''webm'', Size = yt_Filesize a2\<rparr>"
    by (simp add: pf extractBitrate_128 extractBitrate_160)
  have "GetBestFormats (parseFormats [v, a1, a2]) =
           [\<lparr>ID = ''251'', Type = ''audio'', Quality = best_audio_label @ ''160kbps)'',
             Ext = ''webm'', Size = yt_Filesize a2\<rparr>,
            \<lparr>ID = ''137+251'', Type = ''video'', Quality = ''1080p Full HD'' @ video_audio_suffix,
             Ext = ''mp4'', Size = yt_Filesize v + yt_Filesize a2\<rparr>,
            \<lparr>ID = ''137'', Type = ''video_only'', Quality = ''1080p Full HD'' @ video_only_suffix,
             Ext = ''mp4'', Size = yt_Filesize v\<rparr>]"
    unfolding GetBestFormats_def Let_def ba
    by (simp add: pf resolutions_def HasPrefix_1080p best_audio_offer_def merged_offer_def
        video_only_offer_def resLabels_def)
  with pf ba show ?thesis by simp
qed

theorem normalizer_ranker_example_witness:
  "parseFormats [raw_137, raw_140, raw_251] =
     [\<lparr>ID = ''137'', Type = ''video'', Quality = ''1080p'', Ext = ''mp4'', Size = 1000\<rparr>,
      \<lparr>ID = ''140'', Type = ''audio'', Quality = ''128kbps'', Ext = ''m4a'', Size = 100\<rparr>,
      \<lparr>ID = ''251'', Type = ''audio'', Quality = ''160kbps'', Ext = ''webm'', Size = 120\<rparr>] \<and>
   GetBestFormats (parseFormats [raw_137, raw_140, raw_251]) =
     [\<lparr>ID = ''251'', Type = ''audio'', Quality = best_audio_label @ ''160kbps)'',
       Ext = ''webm'', Size = 120\<rparr>,
      \<lparr>ID = ''137+251'', Type = ''video'', Quality = ''1080p Full HD'' @ video_audio_suffix,
       Ext = ''mp4'', Size = 1120\<rparr>,
      \<lparr>ID = ''137'', Type = ''video_only'', Quality = ''1080p Full HD'' @ video_only_suffix,
       Ext = ''mp4'', Size = 1000\<rparr>]"
proof -
  have h: "example_input raw_137 raw_140 raw_251"
    by (simp add: example_input_def raw_137_def raw_140_def raw_251_def)
  have fields: "yt_Filesize raw_137 = 1000" "yt_Filesize raw_140 = 100"
    "yt_Filesize raw_251 = 120" "yt_Ext raw_140 = ''m4a''"
    by (simp_all add: raw_137_def raw_140_def raw_251_def)
  from normalizer_ranker_example [OF h] show ?thesis
    by (simp add: fields cong: conj_cong)
qed

text \<open>
  C5 as worded gives the labels in English, "1080p Full HD (video + audio)" and
  "1080p Full HD (video only)". The offers "137+251" and "137" carry other labels.
\<close>

theorem english_labels_counterexample:
  "GetBestFormats (parseFormats [raw_137, raw_140, raw_251]) =
     [\<lparr>ID = ''251'', Type = ''audio'', Quality = best_audio_label @ ''160kbps)'',
       Ext = ''webm'', Size = 120\<rparr>,
      \<lparr>ID = ''137+251'', Type = ''video'', Quality = ''1080p Full HD'' @ video_audio_suffix,
       Ext = ''mp4'', Size = 1120\<rparr>,
      \<lparr>ID = ''137'', Type = ''video_only'', Quality = ''1080p Full HD'' @ video_only_suffix,
       Ext = ''mp4'', Size = 1000\<rparr>] \<and>
   ''1080p Full HD'' @ video_audio_suffix \<noteq> ''1080p Full HD (video + audio)'' \<and>
   ''1080p Full HD'' @ video_only_suffix \<noteq> ''1080p Full HD (video only)''"
  by code_simp

section \<open>Properties of the download handler\<close>

subsection \<open>Traces\<close>

lemma discipline_prefix:
  "permit_discipline h (pre @ EvExec b a # post) \<Longrightarrow>
   count_list pre EvRelease < h + count_list pre (EvTryAcquire True)"
proof (induction pre arbitrary: h)
  case Nil
  then show ?case by simp
next
  case (Cons ev pre)
  show ?case
  proof (cases ev)
    case (EvTryAcquire ok)
    with Cons.prems have "permit_discipline (if ok then h + 1 else h) (pre @ EvExec b a # post)"
      by simp
    from Cons.IH [OF this] EvTryAcquire show ?thesis by (cases ok) auto
  next
    case EvRelease
    with Cons.prems have h: "0 < h" and "permit_discipline (h - 1) (pre @ EvExec b a # post)"
      by simp_all
    from Cons.IH [OF this(2)] h EvRelease show ?thesis by simp
  qed (use Cons in auto)
qed

lemma permit_quiet_append [simp]: "permit_quiet (xs @ ys) = (permit_quiet xs \<and> permit_quiet ys)"
  by (simp add: permit_quiet_def)

lemma remove_free_append [simp]: "remove_free (xs @ ys) = (remove_free xs \<and> remove_free ys)"
  by (simp add: remove_free_def)

lemma header_values_append [simp]:
  "header_values name (xs @ ys) = header_values name xs @ header_values name ys"
  by (simp add: header_values_def map_filter_def)

lemma header_free_values: "header_free evs \<Longrightarrow> header_values name evs = []"
  by (induction evs) (auto simp: header_free_def header_values_def map_filter_simps split: event.splits)

lemma permit_quiet_discipline:
  "permit_quiet evs \<Longrightarrow> permit_discipline (Suc h) (evs @ rest) = permit_discipline (Suc h) rest"
proof (induction evs)
  case Nil
  then show ?case by simp
next
  case (Cons ev evs)
  then show ?case by (cases ev) (auto simp: permit_quiet_def)
qed

lemma quiet_discipline: "permit_quiet evs \<Longrightarrow> exec_free evs \<Longrightarrow> permit_discipline 0 evs"
proof (induction evs)
  case Nil
  then show ?case by simp
next
  case (Cons ev evs)
  then show ?case by (cases ev) (auto simp: permit_quiet_def exec_free_def)
qed

lemma permit_quiet_counts:
  "permit_quiet evs \<Longrightarrow> count_list evs EvRelease = 0 \<and> count_list evs (EvTryAcquire True) = 0"
  by (induction evs) (auto simp: permit_quiet_def)

lemma remove_free_count: "remove_free evs \<Longrightarrow> count_list evs (EvRemove q) = 0"
  by (induction evs) (auto simp: remove_free_def split: event.splits)

lemma reaches_file_acquires: "reaches_file path \<Longrightarrow> acquires path"
  by (cases path) simp_all

subsection \<open>Deferred calls\<close>

lemma unwind_result:
  "trace (unwind ds s) = trace s @ map deferred_event ds \<and> defers (unwind ds s) = defers s \<and>
   sem (unwind ds s) = ((Release ^^ count_list ds DeferRelease) (sem s))"
proof (induction ds arbitrary: s)
  case Nil
  then show ?case by simp
next
  case (Cons d ds)
  show ?case
    by (cases d) (simp_all add: Cons run_deferred_def emit_def deferred_event_def funpow_swap1)
qed

lemma return_from_result:
  "return_from s =
     \<lparr>sem = (Release ^^ count_list (defers s) DeferRelease) (sem s),
      trace = trace s @ map deferred_event (defers s), defers = []\<rparr>"
  using unwind_result [of "defers s" "s\<lparr>defers := []\<rparr>"]
  by (simp add: return_from_def)

lemma release_after_acquire: "held sm < capacity sm \<Longrightarrow> Release (snd (TryAcquire sm)) = sm"
  by (simp add: TryAcquire_def Release_def)

subsection \<open>The stages of the handler\<close>

lemma DownloadToFile_events:
  assumes "DownloadToFile w y u f d = (evs, res)"
  shows "permit_quiet evs \<and> header_free evs \<and> (\<forall>p n. res = Inr (p, n) \<longrightarrow> remove_free evs)"
  using assms
  by (auto simp: DownloadToFile_def Let_def permit_quiet_def remove_free_def header_free_def
      split: option.splits cmd_result.splits list.splits if_splits)

lemma stream_file_result:
  assumes "stream_file w p n s0 = (path, s)"
  shows "reaches_file path \<and> sem s = sem s0 \<and>
         (\<exists>evs. trace s = trace s0 @ evs \<and> permit_quiet evs \<and> remove_free evs) \<and>
         (defers s = defers s0 \<or> defers s = DeferClose p # defers s0)"
  using assms
  by (auto simp: stream_file_def Let_def emit_def emits_def defer_call_def response_headers_def
      permit_quiet_def remove_free_def
      split: option.splits if_splits prod.splits)

lemma stream_file_streams:
  assumes "os_Open w p" and "file_Stat w p = Some fsize"
  shows "stream_file w p n s0 =
           (if snd (io_Copy w p) then Complete else StreamError,
            s0\<lparr>trace := trace s0 @ [EvOpen p, EvFileStat p]
                  @ map (\<lambda>(k, v). EvHeader k v) (response_headers w n fsize)
                  @ [EvCopy p,
                     EvLog (if snd (io_Copy w p) then ''Download complete''
                            else ''Failed to stream file'')],
               defers := DeferClose p # defers s0\<rparr>)"
  using assms
  by (cases "io_Copy w p") (simp add: stream_file_def Let_def emit_def emits_def defer_call_def)

lemma download_and_stream_failed:
  assumes "download_and_stream w y u f s0 = (path, s)"
    and "\<not> MkdirAll w ''/tmp/viddown'' \<or> DownloadToFile w y u f ''/tmp/viddown'' = (evs0, Inl e)"
  shows "acquires path \<and> \<not> reaches_file path \<and> sem s = sem s0 \<and> defers s = defers s0 \<and>
         (\<exists>evs. trace s = trace s0 @ evs \<and> permit_quiet evs)"
proof (cases "MkdirAll w ''/tmp/viddown''")
  case False
  with assms(1) show ?thesis
    by (auto simp: download_and_stream_def Let_def emit_def permit_quiet_def)
next
  case True
  with assms(2) have dl: "DownloadToFile w y u f ''/tmp/viddown'' = (evs0, Inl e)" by simp
  from DownloadToFile_events [OF dl] have "permit_quiet evs0" by simp
  with assms(1) True dl show ?thesis
    by (auto simp: download_and_stream_def Let_def emit_def emits_def permit_quiet_def)
qed

lemma download_and_stream_unfold:
  assumes "MkdirAll w ''/tmp/viddown''"
    and "DownloadToFile w y u f ''/tmp/viddown'' = (evs0, Inr (p, n))"
  shows "download_and_stream w y u f s0 =
           stream_file w p n
             (s0\<lparr>trace := trace s0 @ [EvLog ''Starting download'', EvMkdirAll ''/tmp/viddown''] @ evs0,
                 defers := DeferRemove p # defers s0\<rparr>)"
  using assms by (simp add: download_and_stream_def Let_def emit_def emits_def defer_call_def)

lemma download_and_stream_downloaded:
  assumes ds: "download_and_stream w y u f s0 = (path, s)"
    and mk: "MkdirAll w ''/tmp/viddown''"
    and dl: "DownloadToFile w y u f ''/tmp/viddown'' = (evs0, Inr (p, n))"
  shows "reaches_file path \<and> sem s = sem s0 \<and>
         (defers s = DeferRemove p # defers s0 \<or>
          defers s = DeferClose p # DeferRemove p # defers s0) \<and>
         (\<exists>evs. trace s = trace s0 @ evs \<and> permit_quiet evs \<and> remove_free evs)"
proof -
  let ?s1 = "s0\<lparr>trace := trace s0 @ [EvLog ''Starting download'', EvMkdirAll ''/tmp/viddown''] @ evs0,
                defers := DeferRemove p # defers s0\<rparr>"
  from ds have sf: "stream_file w p n ?s1 = (path, s)"
    by (simp add: download_and_stream_unfold [OF mk dl])
  from stream_file_result [OF sf] obtain evs where
    a: "reaches_file path" "sem s = sem ?s1" "trace s = trace ?s1 @ evs" "permit_quiet evs"
      "remove_free evs" "defers s = defers ?s1 \<or> defers s = DeferClose p # defers ?s1"
    by blast
  from DownloadToFile_events [OF dl] have gf: "permit_quiet evs0" and rf: "remove_free evs0"
    by simp_all
  let ?evs = "[EvLog ''Starting download'', EvMkdirAll ''/tmp/viddown''] @ evs0 @ evs"
  have tr: "trace s = trace s0 @ ?evs" using a(3) by simp
  have g2: "permit_quiet ?evs" using gf a(4) by (simp add: permit_quiet_def)
  have r2: "remove_free ?evs" using rf a(5) by (simp add: remove_free_def)
  have d2: "defers s = DeferRemove p # defers s0 \<or>
            defers s = DeferClose p # DeferRemove p # defers s0"
    using a(6) by simp
  have s2: "sem s = sem s0" using a(2) by simp
  show ?thesis using a(1) s2 tr g2 r2 d2 by blast
qed

subsection \<open>The handler as a whole\<close>

text \<open>When the permit is granted, the body runs from this state.\<close>

lemma ServeHTTP_granted:
  assumes "reaches_semaphore w r u" and "held sm < capacity sm"
  shows "ServeHTTP w y r sm =
           (case download_and_stream w y u (requested_format r)
                   \<lparr>sem = snd (TryAcquire sm), trace = [EvTryAcquire True], defers = [DeferRelease]\<rparr> of
              (path, s) \<Rightarrow> (path, return_from s))"
  using assms
  by (simp add: ServeHTTP_def ServeHTTP_body_def reaches_semaphore_def requested_format_def Let_def
      TryAcquire_def emit_def defer_call_def)

lemma ServeHTTP_acquired:
  assumes rg: "reaches_semaphore w r u" and free: "held sm < capacity sm"
  shows "\<exists>path evs closing.
           ServeHTTP w y r sm =
             (path, \<lparr>sem = sm, trace = EvTryAcquire True # evs @ closing @ [EvRelease], defers = []\<rparr>) \<and>
           acquires path \<and> permit_quiet evs \<and>
           ((closing = [] \<and> \<not> reaches_file path \<and>
             (\<not> MkdirAll w ''/tmp/viddown'' \<or>
              (\<exists>evs0 e. DownloadToFile w y u (requested_format r) ''/tmp/viddown'' = (evs0, Inl e)))) \<or>
            (\<exists>p n evs0. (closing = [EvRemove p] \<or> closing = [EvClose p, EvRemove p]) \<and>
               remove_free evs \<and> reaches_file path \<and> MkdirAll w ''/tmp/viddown'' \<and>
               DownloadToFile w y u (requested_format r) ''/tmp/viddown'' = (evs0, Inr (p, n))))"
proof -
  let ?f = "requested_format r"
  let ?s0 = "\<lparr>sem = snd (TryAcquire sm), trace = [EvTryAcquire True], defers = [DeferRelease]\<rparr>"
  obtain path s where ds: "download_and_stream w y u ?f ?s0 = (path, s)"
    by (cases "download_and_stream w y u ?f ?s0")
  have serve: "ServeHTTP w y r sm = (path, return_from s)"
    using ds by (simp add: ServeHTTP_granted [OF rg free])
  obtain evs0 res where dl: "DownloadToFile w y u ?f ''/tmp/viddown'' = (evs0, res)"
    by (cases "DownloadToFile w y u ?f ''/tmp/viddown''")
  show ?thesis
  proof (cases "MkdirAll w ''/tmp/viddown'' \<and> (\<exists>pn. res = Inr pn)")
    case False
    then have "\<not> MkdirAll w ''/tmp/viddown'' \<or> (\<exists>e. res = Inl e)" by (cases res) auto
    then obtain e where
      f: "\<not> MkdirAll w ''/tmp/viddown'' \<or> DownloadToFile w y u ?f ''/tmp/viddown'' = (evs0, Inl e)"
      using dl by auto
    from download_and_stream_failed [OF ds f] obtain evs where
      a: "acquires path" "\<not> reaches_file path" "sem s = sem ?s0" "defers s = defers ?s0"
        "trace s = trace ?s0 @ evs" "permit_quiet evs"
      by blast
    have "return_from s = \<lparr>sem = sm, trace = EvTryAcquire True # evs @ [] @ [EvRelease], defers = []\<rparr>"
      using a free by (simp add: return_from_result deferred_event_def release_after_acquire)
    with serve a f show ?thesis
      by (intro exI [of _ path] exI [of _ evs] exI [of _ "[]"]) auto
  next
    case True
    then obtain p n where mk: "MkdirAll w ''/tmp/viddown''" and res: "res = Inr (p, n)" by auto
    from dl res have dl': "DownloadToFile w y u ?f ''/tmp/viddown'' = (evs0, Inr (p, n))" by simp
    from download_and_stream_downloaded [OF ds mk dl'] obtain evs where
      a: "reaches_file path" "sem s = sem ?s0"
        "defers s = DeferRemove p # defers ?s0 \<or> defers s = DeferClose p # DeferRemove p # defers ?s0"
        "trace s = trace ?s0 @ evs" "permit_quiet evs" "remove_free evs"
      by blast
    note acq = reaches_file_acquires [OF a(1)]
    from a(3) show ?thesis
    proof
      assume d: "defers s = DeferRemove p # defers ?s0"
      have "return_from s =
            \<lparr>sem = sm, trace = EvTryAcquire True # evs @ [EvRemove p] @ [EvRelease], defers = []\<rparr>"
        using a d free by (simp add: return_from_result deferred_event_def release_after_acquire)
      with serve a acq mk dl' show ?thesis
        by (intro exI [of _ path] exI [of _ evs] exI [of _ "[EvRemove p]"]) auto
    next
      assume d: "defers s = DeferClose p # DeferRemove p # defers ?s0"
      have "return_from s =
            \<lparr>sem = sm, trace = EvTryAcquire True # evs @ [EvClose p, EvRemove p] @ [EvRelease],
             defers = []\<rparr>"
        using a d free by (simp add: return_from_result deferred_event_def release_after_acquire)
      with serve a acq mk dl' show ?thesis
        by (intro exI [of _ path] exI [of _ evs] exI [of _ "[EvClose p, EvRemove p]"]) auto
    qed
  qed
qed

text \<open>When no permit is granted: the early returns and the busy answer.\<close>

lemma ServeHTTP_not_acquired:
  assumes "\<not> ((\<exists>u. reaches_semaphore w r u) \<and> held sm < capacity sm)"
  shows "\<exists>path evs. ServeHTTP w y r sm = (path, \<lparr>sem = sm, trace = evs, defers = []\<rparr>) \<and>
           \<not> acquires path \<and> permit_quiet evs \<and> exec_free evs"
proof (cases "\<exists>u. reaches_semaphore w r u")
  case False
  then show ?thesis
    by (auto simp: ServeHTTP_def ServeHTTP_body_def return_from_def emit_def permit_quiet_def
        exec_free_def reaches_semaphore_def)
next
  case True
  then obtain u where "Method r = ''GET''" "query_url r \<noteq> []" "QueryUnescape w (query_url r) = Some u"
    by (auto simp: reaches_semaphore_def)
  moreover from True assms have "\<not> held sm < capacity sm" by auto
  ultimately show ?thesis
    by (simp add: ServeHTTP_def ServeHTTP_body_def return_from_def emit_def permit_quiet_def
        exec_free_def TryAcquire_def Let_def)
qed

text \<open>The whole run when the download, the open and the stat succeed.\<close>

lemma ServeHTTP_streams:
  assumes rg: "reaches_semaphore w r u" and free: "held sm < capacity sm"
    and mk: "MkdirAll w ''/tmp/viddown''"
    and dl: "DownloadToFile w y u (requested_format r) ''/tmp/viddown'' = (evs0, Inr (p, n))"
    and op: "os_Open w p" and st: "file_Stat w p = Some fsize"
  shows "ServeHTTP w y r sm =
           (if snd (io_Copy w p) then Complete else StreamError,
            \<lparr>sem = sm,
             trace = [EvTryAcquire True, EvLog ''Starting download'', EvMkdirAll ''/tmp/viddown'']
               @ evs0 @ [EvOpen p, EvFileStat p]
               @ map (\<lambda>(k, v). EvHeader k v) (response_headers w n fsize)
               @ [EvCopy p,
                  EvLog (if snd (io_Copy w p) then ''Download complete'' else ''Failed to stream file''),
                  EvClose p, EvRemove p, EvRelease],
             defers = []\<rparr>)"
  using free
  by (simp add: ServeHTTP_granted [OF rg free] download_and_stream_unfold [OF mk dl]
      stream_file_streams [OF op st] return_from_result deferred_event_def release_after_acquire)

subsection \<open>Sample runs\<close>

lemma Itoa_stamp: "Itoa 1700000000000000000 = ''1700000000000000000''"
  by (simp add: Itoa_def show_nat.simps digit_char_def)

lemma world_ok_download:
  "DownloadToFile world_ok y u f ''/tmp/viddown'' =
     ([EvExec y (ytdlp_args f ''/tmp/viddown/1700000000000000000_%(title)s.%(ext)s'' u),
       EvGlob ''/tmp/viddown/1700000000000000000_*'',
       EvStat ''/tmp/viddown/1700000000000000000_clip.mp4''],
      Inr (''/tmp/viddown/1700000000000000000_clip.mp4'', ''clip.mp4''))"
  by (simp add: DownloadToFile_def world_ok_def Itoa_stamp filepath_Join_def display_name_def
      filepath_Base_def Let_def)

lemma world_copy_fails_download:
  "DownloadToFile world_copy_fails y u f ''/tmp/viddown'' =
     ([EvExec y (ytdlp_args f ''/tmp/viddown/1700000000000000000_%(title)s.%(ext)s'' u),
       EvGlob ''/tmp/viddown/1700000000000000000_*'',
       EvStat ''/tmp/viddown/1700000000000000000_clip.mp4''],
      Inr (''/tmp/viddown/1700000000000000000_clip.mp4'', ''clip.mp4''))"
  by (simp add: DownloadToFile_def world_copy_fails_def world_ok_def Itoa_stamp filepath_Join_def
      display_name_def filepath_Base_def Let_def)

lemma world_mkv_download:
  "DownloadToFile world_mkv y u f ''/tmp/viddown'' =
     ([EvExec y (ytdlp_args f ''/tmp/viddown/1700000000000000000_%(title)s.%(ext)s'' u),
       EvGlob ''/tmp/viddown/1700000000000000000_*'',
       EvStat ''/tmp/viddown/1700000000000000000_clip.mkv''],
      Inr (''/tmp/viddown/1700000000000000000_clip.mkv'', ''clip.mkv''))"
  by (simp add: DownloadToFile_def world_mkv_def world_ok_def Itoa_stamp filepath_Join_def
      display_name_def filepath_Base_def Let_def)

lemma request_ok_reaches:
  "reaches_semaphore world_ok request_ok ''https://youtu.be/abc''"
  "reaches_semaphore world_copy_fails request_ok ''https://youtu.be/abc''"
  "reaches_semaphore world_mkv request_ok ''https://youtu.be/abc''"
  "requested_format request_ok = ''137+251''"
  by (simp_all add: reaches_semaphore_def requested_format_def request_ok_def world_ok_def
      world_copy_fails_def world_mkv_def)

lemma world_copy_fails_run:
  "ServeHTTP world_copy_fails ''yt-dlp'' request_ok sem_open =
     (StreamError,
      \<lparr>sem = sem_open,
       trace = [EvTryAcquire True, EvLog ''Starting download'', EvMkdirAll ''/tmp/viddown'',
          EvExec ''yt-dlp''
            (ytdlp_args ''137+251'' ''/tmp/viddown/1700000000000000000_%(title)s.%(ext)s''
               ''https://youtu.be/abc''),
          EvGlob ''/tmp/viddown/1700000000000000000_*'',
          EvStat ''/tmp/viddown/1700000000000000000_clip.mp4'',
          EvOpen ''/tmp/viddown/1700000000000000000_clip.mp4'',
          EvFileStat ''/tmp/viddown/1700000000000000000_clip.mp4'']
         @ map (\<lambda>(k, v). EvHeader k v) (response_headers world_copy_fails ''clip.mp4'' 1024)
         @ [EvCopy ''/tmp/viddown/1700000000000000000_clip.mp4'', EvLog ''Failed to stream file'',
            EvClose ''/tmp/viddown/1700000000000000000_clip.mp4'',
            EvRemove ''/tmp/viddown/1700000000000000000_clip.mp4'', EvRelease],
       defers = []\<rparr>)"
proof -
  have free: "held sem_open < capacity sem_open" by (simp add: sem_open_def)
  have mk: "MkdirAll world_copy_fails ''/tmp/viddown''"
    by (simp add: world_copy_fails_def world_ok_def)
  have dl: "DownloadToFile world_copy_fails ''yt-dlp'' ''https://youtu.be/abc''
              (requested_format request_ok) ''/tmp/viddown'' =
            ([EvExec ''yt-dlp''
                (ytdlp_args ''137+251'' ''/tmp/viddown/1700000000000000000_%(title)s.%(ext)s''
                   ''https://youtu.be/abc''),
              EvGlob ''/tmp/viddown/1700000000000000000_*'',
              EvStat ''/tmp/viddown/1700000000000000000_clip.mp4''],
             Inr (''/tmp/viddown/1700000000000000000_clip.mp4'', ''clip.mp4''))"
    by (simp add: world_copy_fails_download request_ok_reaches)
  have op: "os_Open world_copy_fails ''/tmp/viddown/1700000000000000000_clip.mp4''"
    by (simp add: world_copy_fails_def world_ok_def)
  have st: "file_Stat world_copy_fails ''/tmp/viddown/1700000000000000000_clip.mp4'' = Some 1024"
    by (simp add: world_copy_fails_def world_ok_def)
  have cp: "snd (io_Copy world_copy_fails ''/tmp/viddown/1700000000000000000_clip.mp4'') = False"
    by (simp add: world_copy_fails_def world_ok_def)
  show ?thesis
    by (simp add: ServeHTTP_streams [OF request_ok_reaches(2) free mk dl op st] cp)
qed

lemma world_mkv_run:
  "ServeHTTP world_mkv ''yt-dlp'' request_ok sem_open =
     (Complete,
      \<lparr>sem = sem_open,
       trace = [EvTryAcquire True, EvLog ''Starting download'', EvMkdirAll ''/tmp/viddown'',
          EvExec ''yt-dlp''
            (ytdlp_args ''137+251'' ''/tmp/viddown/1700000000000000000_%(title)s.%(ext)s''
               ''https://youtu.be/abc''),
          EvGlob ''/tmp/viddown/1700000000000000000_*'',
          EvStat ''/tmp/viddown/1700000000000000000_clip.mkv'',
          EvOpen ''/tmp/viddown/1700000000000000000_clip.mkv'',
          EvFileStat ''/tmp/viddown/1700000000000000000_clip.mkv'']
         @ map (\<lambda>(k, v). EvHeader k v) (response_headers world_mkv ''clip.mkv'' 1024)
         @ [EvCopy ''/tmp/viddown/1700000000000000000_clip.mkv'', EvLog ''Download complete'',
            EvClose ''/tmp/viddown/1700000000000000000_clip.mkv'',
            EvRemove ''/tmp/viddown/1700000000000000000_clip.mkv'', EvRelease],
       defers = []\<rparr>)"
proof -
  have free: "held sem_open < capacity sem_open" by (simp add: sem_open_def)
  have mk: "MkdirAll world_mkv ''/tmp/viddown''"
    by (simp add: world_mkv_def world_ok_def)
  have dl: "DownloadToFile world_mkv ''yt-dlp'' ''https://youtu.be/abc''
              (requested_format request_ok) ''/tmp/viddown'' =
            ([EvExec ''yt-dlp''
                (ytdlp_args ''137+251'' ''/tmp/viddown/1700000000000000000_%(title)s.%(ext)s''
                   ''https://youtu.be/abc''),
              EvGlob ''/tmp/viddown/1700000000000000000_*'',
              EvStat ''/tmp/viddown/1700000000000000000_clip.mkv''],
             Inr (''/tmp/viddown/1700000000000000000_clip.mkv'', ''clip.mkv''))"
    by (simp add: world_mkv_download request_ok_reaches)
  have op: "os_Open world_mkv ''/tmp/viddown/1700000000000000000_clip.mkv''"
    by (simp add: world_mkv_def world_ok_def)
  have st: "file_Stat world_mkv ''/tmp/viddown/1700000000000000000_clip.mkv'' = Some 1024"
    by (simp add: world_mkv_def world_ok_def)
  have cp: "snd (io_Copy world_mkv ''/tmp/viddown/1700000000000000000_clip.mkv'') = True"
    by (simp add: world_mkv_def world_ok_def)
  show ?thesis
    by (simp add: ServeHTTP_streams [OF request_ok_reaches(3) free mk dl op st] cp)
qed

lemma response_headers_events:
  "map (\<lambda>(k, v). EvHeader k v) (response_headers w n fsize) =
     [EvHeader ''Content-Type'' (snd (response_headers w n fsize ! 0)),
      EvHeader ''Content-Length'' (snd (response_headers w n fsize ! 1)),
      EvHeader ''Content-Disposition'' (snd (response_headers w n fsize ! 2)),
      EvHeader ''X-Content-Type-Options'' ''nosniff'',
      EvHeader ''Cache-Control'' ''no-cache'']"
  by (simp add: response_headers_def Let_def)

subsection \<open>Claims about the handler and the semaphore\<close>

text \<open>
  C1. In every run of \<open>ServeHTTP\<close> the trace obeys the permit discipline: the external
  process is started only after a granted \<open>TryAcquire\<close> that has not been released yet, a
  permit is acquired exactly on the exit paths behind the semaphore (temp-directory failure,
  download failure, open or stat failure, streaming error, success) and never on the
  others (wrong method, missing URL, URL-decoding failure, busy), and each acquired permit
  is released exactly once, as the last step before the handler returns; the semaphore is left
  as it was found and no deferred call is left over.
\<close>

theorem ServeHTTP_permit_released:
  "(case ServeHTTP w y r sm of
      (path, s) \<Rightarrow>
        permit_discipline 0 (trace s) \<and>
        (\<forall>pre bin args post. trace s = pre @ EvExec bin args # post \<longrightarrow>
           count_list pre EvRelease < count_list pre (EvTryAcquire True)) \<and>
        acquires path = ((\<exists>u. reaches_semaphore w r u) \<and> fst (TryAcquire sm)) \<and>
        count_list (trace s) (EvTryAcquire True) = (if acquires path then 1 else 0) \<and>
        count_list (trace s) EvRelease = (if acquires path then 1 else 0) \<and>
        (acquires path \<longrightarrow> last (trace s) = EvRelease) \<and>
        sem s = sm \<and> defers s = [])"
proof -
  have fst_try: "fst (TryAcquire sm) = (held sm < capacity sm)"
    by (simp add: TryAcquire_def)
  have prefix: "\<forall>pre bin args post. tr = pre @ EvExec bin args # post \<longrightarrow>
           count_list pre EvRelease < count_list pre (EvTryAcquire True)"
    if "permit_discipline 0 tr" for tr
    using that discipline_prefix [of 0] by fastforce
  show ?thesis
  proof (cases "(\<exists>u. reaches_semaphore w r u) \<and> held sm < capacity sm")
    case True
    then obtain u where rg: "reaches_semaphore w r u" and free: "held sm < capacity sm" by blast
    from ServeHTTP_acquired [OF rg free, of y] obtain path evs closing where
      run: "ServeHTTP w y r sm =
              (path, \<lparr>sem = sm, trace = EvTryAcquire True # evs @ closing @ [EvRelease], defers = []\<rparr>)"
      and acq: "acquires path" and gf: "permit_quiet evs"
      and cl: "closing = [] \<or> (\<exists>p. closing = [EvRemove p] \<or> closing = [EvClose p, EvRemove p])"
      by blast
    from cl have gc: "permit_quiet closing" by (auto simp: permit_quiet_def)
    let ?tr = "EvTryAcquire True # evs @ closing @ [EvRelease]"
    have "permit_discipline (Suc 0) ((evs @ closing) @ [EvRelease])"
      using gf gc by (simp only: permit_quiet_discipline permit_quiet_append) simp
    then have pd: "permit_discipline 0 ?tr" by simp
    have counts: "count_list ?tr (EvTryAcquire True) = 1" "count_list ?tr EvRelease = 1"
      using permit_quiet_counts [OF gf] permit_quiet_counts [OF gc] by simp_all
    have "last ?tr = EvRelease" by simp
    with run acq pd counts prefix [OF pd] True fst_try show ?thesis by auto
  next
    case False
    from ServeHTTP_not_acquired [OF False, of y] obtain path evs where
      run: "ServeHTTP w y r sm = (path, \<lparr>sem = sm, trace = evs, defers = []\<rparr>)"
      and nacq: "\<not> acquires path" and gf: "permit_quiet evs" and ef: "exec_free evs"
      by blast
    have pd: "permit_discipline 0 evs" using gf ef by (rule quiet_discipline)
    with run nacq permit_quiet_counts [OF gf] prefix [OF pd] False fst_try show ?thesis by auto
  qed
qed

theorem ServeHTTP_permit_released_witness:
  "fst (ServeHTTP world_copy_fails ''yt-dlp'' request_ok sem_open) = StreamError \<and>
   permit_discipline 0 (trace (snd (ServeHTTP world_copy_fails ''yt-dlp'' request_ok sem_open))) \<and>
   count_list (trace (snd (ServeHTTP world_copy_fails ''yt-dlp'' request_ok sem_open)))
     (EvTryAcquire True) = 1 \<and>
   count_list (trace (snd (ServeHTTP world_copy_fails ''yt-dlp'' request_ok sem_open))) EvRelease = 1 \<and>
   last (trace (snd (ServeHTTP world_copy_fails ''yt-dlp'' request_ok sem_open))) = EvRelease \<and>
   sem (snd (ServeHTTP world_copy_fails ''yt-dlp'' request_ok sem_open)) = sem_open"
  using ServeHTTP_permit_released
    [where w = world_copy_fails and y = "''yt-dlp''" and r = request_ok and sm = sem_open]
  by (simp add: world_copy_fails_run response_headers_events)

text \<open>
  C2. A request that gets as far as the semaphore and finds no permit is answered at once with
  status 503 and the busy message; the whole run is the four events below, so no
  directory is made, no external process is started and no file is touched, and the semaphore
  is unchanged.
\<close>

theorem ServeHTTP_busy:
  assumes "reaches_semaphore w r u" and "\<not> fst (TryAcquire sm)"
  shows "ServeHTTP w y r sm =
           (Busy,
            \<lparr>sem = sm,
             trace = [EvTryAcquire False, EvAvailable, EvLog ''Too many concurrent downloads'',
                      EvHttpError 503 (json_error ''Server busy. Please try again in a moment.'')],
             defers = []\<rparr>)"
  using assms
  by (simp add: ServeHTTP_def ServeHTTP_body_def reaches_semaphore_def return_from_def emit_def
      TryAcquire_def Let_def split: if_splits)

theorem ServeHTTP_busy_witness:
  "reaches_semaphore world_ok request_ok ''https://youtu.be/abc'' \<and> \<not> fst (TryAcquire sem_full) \<and>
   fst (ServeHTTP world_ok ''yt-dlp'' request_ok sem_full) = Busy \<and>
   exec_free (trace (snd (ServeHTTP world_ok ''yt-dlp'' request_ok sem_full))) \<and>
   length (trace (snd (ServeHTTP world_ok ''yt-dlp'' request_ok sem_full))) = 4"
proof -
  have g: "reaches_semaphore world_ok request_ok ''https://youtu.be/abc''" by (rule request_ok_reaches)
  have f: "\<not> fst (TryAcquire sem_full)" by (simp add: TryAcquire_def sem_full_def)
  from ServeHTTP_busy [OF g f, where y = "''yt-dlp''"] g f show ?thesis
    by (simp add: exec_free_def)
qed

text \<open>
  C3. When the handler has the permit and \<open>DownloadToFile\<close> returns a file path, the run
  removes that path exactly once and removes nothing else: the removal is the step before
  the release of the permit, after everything the handler does with the file, whichever
  way the run ends behind the download (open failure, stat failure, streaming error,
  success).
\<close>

theorem ServeHTTP_removes_temp_file:
  assumes "reaches_semaphore w r u" and "fst (TryAcquire sm)" and "MkdirAll w ''/tmp/viddown''"
    and "DownloadToFile w y u (requested_format r) ''/tmp/viddown'' = (evs0, Inr (tempFile, filename))"
  shows "(case ServeHTTP w y r sm of
            (path, s) \<Rightarrow>
              reaches_file path \<and>
              count_list (trace s) (EvRemove tempFile) = 1 \<and>
              (\<forall>q. q \<noteq> tempFile \<longrightarrow> count_list (trace s) (EvRemove q) = 0) \<and>
              (\<exists>before. trace s = before @ [EvRemove tempFile, EvRelease] \<and> remove_free before))"
proof -
  from assms(2) have free: "held sm < capacity sm"
    by (simp add: TryAcquire_def split: if_splits)
  from ServeHTTP_acquired [OF assms(1) free, of y] assms(3,4) obtain path evs closing where
    run: "ServeHTTP w y r sm =
            (path, \<lparr>sem = sm, trace = EvTryAcquire True # evs @ closing @ [EvRelease], defers = []\<rparr>)"
    and cl: "closing = [EvRemove tempFile] \<or> closing = [EvClose tempFile, EvRemove tempFile]"
    and rf: "remove_free evs" and reach: "reaches_file path"
    by auto
  let ?tr = "EvTryAcquire True # evs @ closing @ [EvRelease]"
  from cl have one: "count_list ?tr (EvRemove tempFile) = 1"
    using remove_free_count [OF rf, of tempFile] by auto
  from cl have none: "count_list ?tr (EvRemove q) = 0" if "q \<noteq> tempFile" for q
    using remove_free_count [OF rf, of q] that by auto
  from cl have "\<exists>before. ?tr = before @ [EvRemove tempFile, EvRelease] \<and> remove_free before"
  proof
    assume "closing = [EvRemove tempFile]"
    then have "?tr = (EvTryAcquire True # evs) @ [EvRemove tempFile, EvRelease] \<and>
               remove_free (EvTryAcquire True # evs)"
      using rf by (simp add: remove_free_def)
    then show ?thesis by blast
  next
    assume "closing = [EvClose tempFile, EvRemove tempFile]"
    then have "?tr = (EvTryAcquire True # evs @ [EvClose tempFile]) @ [EvRemove tempFile, EvRelease] \<and>
               remove_free (EvTryAcquire True # evs @ [EvClose tempFile])"
      using rf by (simp add: remove_free_def)
    then show ?thesis by blast
  qed
  with run reach one none show ?thesis by simp
qed

theorem ServeHTTP_removes_temp_file_witness:
  "fst (ServeHTTP world_copy_fails ''yt-dlp'' request_ok sem_open) = StreamError \<and>
   count_list (trace (snd (ServeHTTP world_copy_fails ''yt-dlp'' request_ok sem_open)))
     (EvRemove ''/tmp/viddown/1700000000000000000_clip.mp4'') = 1 \<and>
   drop 15 (trace (snd (ServeHTTP world_copy_fails ''yt-dlp'' request_ok sem_open))) =
     [EvClose ''/tmp/viddown/1700000000000000000_clip.mp4'',
      EvRemove ''/tmp/viddown/1700000000000000000_clip.mp4'', EvRelease]"
proof -
  have g: "reaches_semaphore world_copy_fails request_ok ''https://youtu.be/abc''"
    by (rule request_ok_reaches)
  have f: "fst (TryAcquire sem_open)" by (simp add: TryAcquire_def sem_open_def)
  have mk: "MkdirAll world_copy_fails ''/tmp/viddown''"
    by (simp add: world_copy_fails_def world_ok_def)
  note dl = world_copy_fails_download
    [of "''yt-dlp''" "''https://youtu.be/abc''" "requested_format request_ok"]
  from ServeHTTP_removes_temp_file [OF g f mk dl] show ?thesis
    by (simp add: world_copy_fails_run response_headers_events)
qed

text \<open>
  C9, as the code has it. When the handler streams a file there is exactly one
  Content-Type header. Its value is what \<open>mime.TypeByExtension\<close> gives for the extension of
  the file name, or for ".mp4" when the name has no extension; when that lookup gives
  nothing the value is "application/octet-stream".
\<close>

theorem ServeHTTP_content_type:
  assumes "reaches_semaphore w r u" and "fst (TryAcquire sm)" and "MkdirAll w ''/tmp/viddown''"
    and "DownloadToFile w y u (requested_format r) ''/tmp/viddown'' = (evs0, Inr (tempFile, filename))"
    and "os_Open w tempFile" and "file_Stat w tempFile = Some fsize"
  shows "header_values ''Content-Type'' (trace (snd (ServeHTTP w y r sm))) =
           [if filepath_Ext filename = [] then
              (if TypeByExtension w ''.mp4'' = [] then ''application/octet-stream''
               else TypeByExtension w ''.mp4'')
            else if TypeByExtension w (filepath_Ext filename) = [] then ''application/octet-stream''
            else TypeByExtension w (filepath_Ext filename)]"
proof -
  from assms(2) have free: "held sm < capacity sm"
    by (simp add: TryAcquire_def split: if_splits)
  from DownloadToFile_events [OF assms(4)] have "header_free evs0" by simp
  then have h0: "header_values ''Content-Type'' evs0 = []" by (rule header_free_values)
  have hs: "header_values ''Content-Type''
              (map (\<lambda>(k, v). EvHeader k v) (response_headers w filename fsize)) =
            [snd (response_headers w filename fsize ! 0)]"
    by (simp add: response_headers_events header_values_def map_filter_simps)
  have h1: "header_values ''Content-Type''
              [EvTryAcquire True, EvLog ''Starting download'', EvMkdirAll ''/tmp/viddown''] = []"
    by (simp add: header_values_def map_filter_simps)
  have h2: "header_values ''Content-Type'' [EvOpen tempFile, EvFileStat tempFile] = []"
    by (simp add: header_values_def map_filter_simps)
  have h3: "header_values ''Content-Type''
              [EvCopy tempFile, EvLog msg, EvClose tempFile, EvRemove tempFile, EvRelease] = []"
    for msg
    by (simp add: header_values_def map_filter_simps)
  have tr: "trace (snd (ServeHTTP w y r sm)) =
              [EvTryAcquire True, EvLog ''Starting download'', EvMkdirAll ''/tmp/viddown'']
              @ evs0 @ [EvOpen tempFile, EvFileStat tempFile]
              @ map (\<lambda>(k, v). EvHeader k v) (response_headers w filename fsize)
              @ [EvCopy tempFile,
                 EvLog (if snd (io_Copy w tempFile) then ''Download complete''
                        else ''Failed to stream file''),
                 EvClose tempFile, EvRemove tempFile, EvRelease]"
    by (simp add: ServeHTTP_streams [OF assms(1) free assms(3,4,5,6)])
  have "header_values ''Content-Type'' (trace (snd (ServeHTTP w y r sm))) =
        [snd (response_headers w filename fsize ! 0)]"
    by (simp only: tr header_values_append h0 h1 h2 h3 hs append_Nil append_Nil2)
  then show ?thesis by (simp add: response_headers_def Let_def)
qed

theorem ServeHTTP_content_type_witness:
  "filepath_Ext ''clip.mp4'' = ''.mp4'' \<and>
   TypeByExtension world_copy_fails ''.mp4'' = ''video/mp4'' \<and>
   header_values ''Content-Type''
     (trace (snd (ServeHTTP world_copy_fails ''yt-dlp'' request_ok sem_open))) = [''video/mp4'']"
proof -
  have g: "reaches_semaphore world_copy_fails request_ok ''https://youtu.be/abc''"
    by (rule request_ok_reaches)
  have f: "fst (TryAcquire sem_open)" by (simp add: TryAcquire_def sem_open_def)
  have mk: "MkdirAll world_copy_fails ''/tmp/viddown''"
    by (simp add: world_copy_fails_def world_ok_def)
  note dl = world_copy_fails_download
    [of "''yt-dlp''" "''https://youtu.be/abc''" "requested_format request_ok"]
  have op: "os_Open world_copy_fails ''/tmp/viddown/1700000000000000000_clip.mp4''"
    by (simp add: world_copy_fails_def world_ok_def)
  have st: "file_Stat world_copy_fails ''/tmp/viddown/1700000000000000000_clip.mp4'' = Some 1024"
    by (simp add: world_copy_fails_def world_ok_def)
  have ext: "filepath_Ext ''clip.mp4'' = ''.mp4''" by (simp add: filepath_Ext_def)
  have ty: "TypeByExtension world_copy_fails ''.mp4'' = ''video/mp4''"
    by (simp add: world_copy_fails_def world_ok_def mime_table_def)
  from ServeHTTP_content_type [OF g f mk dl op st] ext ty show ?thesis by simp
qed

text \<open>
  C9 as worded has the handler fall back to the media type of mp4 when the extension maps
  to no known type. A file \<open>clip.mkv\<close>, whose extension the table does not know while it
  knows ".mp4", is sent as "application/octet-stream".
\<close>

theorem unmapped_extension_counterexample:
  "filepath_Ext ''clip.mkv'' = ''.mkv'' \<and>
   TypeByExtension world_mkv ''.mkv'' = [] \<and>
   TypeByExtension world_mkv ''.mp4'' = ''video/mp4'' \<and>
   fst (ServeHTTP world_mkv ''yt-dlp'' request_ok sem_open) = Complete \<and>
   header_values ''Content-Type'' (trace (snd (ServeHTTP world_mkv ''yt-dlp'' request_ok sem_open)))
     = [''application/octet-stream'']"
proof -
  have ext: "filepath_Ext ''clip.mkv'' = ''.mkv''" by (simp add: filepath_Ext_def)
  have ty: "TypeByExtension world_mkv ''.mkv'' = []" "TypeByExtension world_mkv ''.mp4'' = ''video/mp4''"
    by (simp_all add: world_mkv_def world_ok_def mime_table_def)
  have ct: "snd (response_headers world_mkv ''clip.mkv'' 1024 ! 0) = ''application/octet-stream''"
    by (simp add: response_headers_def Let_def ext ty)
  show ?thesis
    by (simp add: world_mkv_run response_headers_events header_values_def map_filter_simps ext ty ct)
qed

section \<open>Properties of \<open>DownloadToFile\<close>\<close>

text \<open>
  C4, as the code has it. After the external process has exited with success,
  \<open>DownloadToFile\<close> globs for the job's timestamp prefix. A failed glob or an empty list of
  matches is the error "could not find downloaded file". With one match or more it goes
  on with the first match alone: the result is the one it would give if the first match
  were the only one, and it is that path with its display name when the file has content.
\<close>

theorem DownloadToFile_locates_output:
  assumes "ValidateURL w url = None"
    and "cmd_Output w (ytdlp_args f (filepath_Join d (Itoa (UnixNano w) @ ''_%(title)s.%(ext)s'')) url)
           = Output out"
  shows "EvGlob (filepath_Join d (Itoa (UnixNano w) @ ''_*'')) \<in> set (fst (DownloadToFile w y url f d)) \<and>
         (Glob w (filepath_Join d (Itoa (UnixNano w) @ ''_*'')) \<in> {None, Some []} \<longrightarrow>
            snd (DownloadToFile w y url f d) = Inl FileNotFound) \<and>
         (\<forall>m ms. Glob w (filepath_Join d (Itoa (UnixNano w) @ ''_*'')) = Some (m # ms) \<longrightarrow>
            snd (DownloadToFile w y url f d) =
              snd (DownloadToFile (w\<lparr>Glob := (\<lambda>_. Some [m])\<rparr>) y url f d) \<and>
            (\<forall>fsize. os_Stat w m = Some fsize \<and> fsize \<noteq> 0 \<longrightarrow>
               snd (DownloadToFile w y url f d) = Inr (m, display_name m)))"
  using assms
  by (auto simp: DownloadToFile_def Let_def split: option.splits list.splits)

theorem DownloadToFile_locates_output_witness:
  "snd (DownloadToFile world_ok ''yt-dlp'' ''https://youtu.be/abc'' ''137+251'' ''/tmp/viddown'') =
     Inr (''/tmp/viddown/1700000000000000000_clip.mp4'', ''clip.mp4'') \<and>
   EvGlob ''/tmp/viddown/1700000000000000000_*'' \<in>
     set (fst (DownloadToFile world_ok ''yt-dlp'' ''https://youtu.be/abc'' ''137+251'' ''/tmp/viddown'')) \<and>
   Glob world_no_match ''/tmp/viddown/1700000000000000000_*'' = Some [] \<and>
   snd (DownloadToFile world_no_match ''yt-dlp'' ''https://youtu.be/abc'' ''137+251'' ''/tmp/viddown'')
     = Inl FileNotFound"
proof -
  have v: "ValidateURL world_ok ''https://youtu.be/abc'' = None"
    "ValidateURL world_no_match ''https://youtu.be/abc'' = None"
    by (simp_all add: world_ok_def world_no_match_def)
  have c: "cmd_Output world_ok (ytdlp_args ''137+251''
             (filepath_Join ''/tmp/viddown'' (Itoa (UnixNano world_ok) @ ''_%(title)s.%(ext)s''))
             ''https://youtu.be/abc'') = Output []"
    "cmd_Output world_no_match (ytdlp_args ''137+251''
             (filepath_Join ''/tmp/viddown'' (Itoa (UnixNano world_no_match) @ ''_%(title)s.%(ext)s''))
             ''https://youtu.be/abc'') = Output []"
    by (simp_all add: world_ok_def world_no_match_def)
  have g: "Glob world_no_match p = Some []" for p
    by (simp add: world_no_match_def)
  from DownloadToFile_locates_output [OF v(2) c(2), where y = "''yt-dlp''"] g
  have "snd (DownloadToFile world_no_match ''yt-dlp'' ''https://youtu.be/abc'' ''137+251''
               ''/tmp/viddown'') = Inl FileNotFound"
    by simp
  with DownloadToFile_locates_output [OF v(1) c(1), where y = "''yt-dlp''"] g show ?thesis
    by (simp add: world_ok_download)
qed

text \<open>
  C4 as worded makes more than one match an error. With two files under the prefix the
  call succeeds and returns the first of them.
\<close>

theorem two_matches_counterexample:
  "Glob world_two_matches ''/tmp/viddown/1700000000000000000_*'' =
     Some [''/tmp/viddown/1700000000000000000_clip.mp4'',
           ''/tmp/viddown/1700000000000000000_clip.webp''] \<and>
   DownloadToFile world_two_matches ''yt-dlp'' ''https://youtu.be/abc'' ''137+251'' ''/tmp/viddown'' =
     ([EvExec ''yt-dlp''
         (ytdlp_args ''137+251'' ''/tmp/viddown/1700000000000000000_%(title)s.%(ext)s''
            ''https://youtu.be/abc''),
       EvGlob ''/tmp/viddown/1700000000000000000_*'',
       EvStat ''/tmp/viddown/1700000000000000000_clip.mp4''],
      Inr (''/tmp/viddown/1700000000000000000_clip.mp4'', ''clip.mp4''))"
  by (simp add: DownloadToFile_def world_two_matches_def world_ok_def Itoa_stamp filepath_Join_def
      display_name_def filepath_Base_def Let_def)

end
